theory Spec2Isabelle
  imports Complex_Main
begin

section \<open>Values shared by the security controller and the bridge\<close>

text \<open>
  \<^verbatim>\<open>entity_id?: string | string[]\<close> of \<^verbatim>\<open>HAServiceCallRequest\<close>: one entity id or an array
  of them. An absent field is \<open>None\<close> in the request record below.
\<close>

datatype entity_ref = Single string | Multi "string list"

text \<open>
  \<^verbatim>\<open>data?: Record<string, unknown>\<close>. The only entry any code of the repository reads is
  \<^verbatim>\<open>temperature\<close>, through the cast \<^verbatim>\<open>as { temperature?: number }\<close>; the entries are therefore
  numbers here. A JavaScript number that comes out of \<^verbatim>\<open>JSON.parse\<close> is finite, so \<open>real\<close>
  has every value that can arrive.
\<close>

type_synonym service_data = "string \<rightharpoonup> real"

record HAServiceCallRequest =
  domain :: string
  service :: string
  entity_id :: "entity_ref option"
  data :: "service_data option"
  confirmed :: "bool option"

record SecurityValidation =
  allowed :: bool
  reason :: "string option"
  requiresConfirmation :: bool
  confirmationPrompt :: "string option"
  sanitizedEntityId :: "string option"

record SecurityConfig =
  allowedDomains :: "string list"
  entityWhitelist :: "string list"
  confirmHighRiskActions :: bool

text \<open>
  \<^verbatim>\<open>AuditLogEntry\<close>. Its fields \<^verbatim>\<open>domain\<close>, \<^verbatim>\<open>service\<close>, \<^verbatim>\<open>entity_id\<close>, \<^verbatim>\<open>allowed\<close> and
  \<^verbatim>\<open>confirmed\<close> carry the prefix \<open>audit_\<close>, since a record field is a constant and the
  request and the verdict already own those names. \<open>AuditFields\<close> is
  \<^verbatim>\<open>Omit<AuditLogEntry, 'timestamp'>\<close>, the argument of \<^verbatim>\<open>addAuditEntry\<close>. The source
  stores \<^verbatim>\<open>serviceCall.entity_id as string\<close>: the cast converts nothing, so the entry
  holds the request's value as it is. A \<^verbatim>\<open>Date\<close> is its number of milliseconds.
\<close>

record AuditFields =
  action :: string
  audit_domain :: "string option"
  audit_service :: "string option"
  audit_entity_id :: "entity_ref option"
  audit_allowed :: bool
  violation_type :: "string option"
  audit_confirmed :: "bool option"

record AuditLogEntry = AuditFields +
  timestamp :: nat

record SecurityController =
  config :: SecurityConfig
  auditEntries :: "AuditLogEntry list"

text \<open>An exception value: \<^verbatim>\<open>new Error(message)\<close> or the engine's \<^verbatim>\<open>TypeError\<close>.\<close>

datatype js_error = Error string | TypeError string

fun error_message :: "js_error \<Rightarrow> string" where
  "error_message (Error m) = m"
| "error_message (TypeError m) = m"

section \<open>JavaScript primitives the controller uses\<close>

text \<open>
  \<^verbatim>\<open>Array.prototype.slice(start)\<close> with one argument: a negative start counts from the
  end and stops at the first element, a start past the end gives the empty array.
\<close>

definition js_slice :: "int \<Rightarrow> 'a list \<Rightarrow> 'a list" where
  "js_slice start xs =
     (if start < 0 then drop (nat (int (length xs) + start)) xs
      else drop (nat start) xs)"

text \<open>\<^verbatim>\<open>String.prototype.replace(a, b)\<close> with a string pattern: the first occurrence only.\<close>

fun replace_first :: "char \<Rightarrow> char \<Rightarrow> string \<Rightarrow> string" where
  "replace_first a b [] = []"
| "replace_first a b (c # cs) = (if c = a then b # cs else c # replace_first a b cs)"

text \<open>\<^verbatim>\<open>replace(/_/g, ' ')\<close>: every occurrence.\<close>

definition replace_all :: "char \<Rightarrow> char \<Rightarrow> string \<Rightarrow> string" where
  "replace_all a b s = map (\<lambda>c. if c = a then b else c) s"

text \<open>
  \<^verbatim>\<open>replace(/^[^.]+\./, '')\<close>: a non-empty run of characters other than the dot at the
  start of the string, and the dot after it, are removed; any other string is unchanged.
\<close>

definition strip_prefix_dot :: "string \<Rightarrow> string" where
  "strip_prefix_dot s =
     (case dropWhile (\<lambda>c. c \<noteq> CHR ''.'') s of
        [] \<Rightarrow> s
      | d # rest \<Rightarrow> (if takeWhile (\<lambda>c. c \<noteq> CHR ''.'') s = [] then s else rest))"

text \<open>A template literal's rendering of an array length: decimal digits.\<close>

fun show_nat :: "nat \<Rightarrow> string" where
  "show_nat n =
     (if n < 10 then [''0123456789'' ! n]
      else show_nat (n div 10) @ [''0123456789'' ! (n mod 10)])"

text \<open>
  Truthiness of \<^verbatim>\<open>serviceCall.entity_id\<close>: \<^verbatim>\<open>undefined\<close> and the empty string are falsy,
  every array is truthy (the empty one too).
\<close>

fun truthy_entity :: "entity_ref option \<Rightarrow> bool" where
  "truthy_entity None = False"
| "truthy_entity (Some (Single s)) = (s \<noteq> [])"
| "truthy_entity (Some (Multi xs)) = True"

fun truthy_flag :: "bool option \<Rightarrow> bool" where
  "truthy_flag None = False"
| "truthy_flag (Some b) = b"

section \<open>SecurityController\<close>

subsection \<open>The audit log\<close>

definition stamp :: "AuditFields \<Rightarrow> nat \<Rightarrow> AuditLogEntry" where
  "stamp e t =
     \<lparr> action = action e, audit_domain = audit_domain e, audit_service = audit_service e,
       audit_entity_id = audit_entity_id e, audit_allowed = audit_allowed e,
       violation_type = violation_type e, audit_confirmed = audit_confirmed e,
       timestamp = t \<rparr>"

text \<open>
  \<^verbatim>\<open>addAuditEntry\<close>: push, then keep the last 1000 once the array is longer. \<open>now\<close> is
  what \<^verbatim>\<open>new Date()\<close> reads. The call of \<^verbatim>\<open>logger.security\<close> writes a log line and
  touches no state of the controller.
\<close>

definition addAuditEntry :: "SecurityController \<Rightarrow> nat \<Rightarrow> AuditFields \<Rightarrow> SecurityController" where
  "addAuditEntry sc now entry =
     (let pushed = auditEntries sc @ [stamp entry now]
      in sc\<lparr>auditEntries := (if length pushed > 1000 then js_slice (- 1000) pushed else pushed)\<rparr>)"

text \<open>\<^verbatim>\<open>getAuditLog(limit = 100)\<close>: \<^verbatim>\<open>this.auditEntries.slice(-limit)\<close>.\<close>

definition getAuditLog :: "SecurityController \<Rightarrow> int option \<Rightarrow> AuditLogEntry list" where
  "getAuditLog sc limit =
     js_slice (- (case limit of None \<Rightarrow> 100 | Some l \<Rightarrow> l)) (auditEntries sc)"

subsection \<open>Risk classification\<close>

definition highRiskDomains :: "string list" where
  "highRiskDomains = [''alarm_control_panel'', ''lock'', ''cover'', ''climate'', ''vacuum'']"

definition highRiskActions :: "string list" where
  "highRiskActions = [''turn_off'', ''unlock'', ''open_cover'', ''alarm_disarm'']"

text \<open>
  \<^verbatim>\<open>tempData.temperature && (tempData.temperature < 10 || tempData.temperature > 30)\<close>:
  the left operand is falsy for an absent entry and for the number 0.
\<close>

fun temperature_out_of_band :: "real option \<Rightarrow> bool" where
  "temperature_out_of_band None = False"
| "temperature_out_of_band (Some t) = (t \<noteq> 0 \<and> (t < 10 \<or> t > 30))"

fun many_or_all :: "entity_ref option \<Rightarrow> bool" where
  "many_or_all None = False"
| "many_or_all (Some (Single s)) = (s = ''all'')"
| "many_or_all (Some (Multi xs)) = (length xs > 5)"

definition isHighRiskAction :: "HAServiceCallRequest \<Rightarrow> bool" where
  "isHighRiskAction serviceCall =
     (if List.member highRiskDomains (domain serviceCall) then True
      else if List.member highRiskActions (service serviceCall) then True
      else if many_or_all (entity_id serviceCall) then True
      else (case data serviceCall of
              None \<Rightarrow> False
            | Some tempData \<Rightarrow>
                service serviceCall = ''set_temperature''
                \<and> temperature_out_of_band (tempData ''temperature'')))"

subsection \<open>The confirmation prompt\<close>

fun entityName :: "entity_ref option \<Rightarrow> string" where
  "entityName (Some (Single s)) =
     (if s \<noteq> [] then replace_all (CHR ''_'') (CHR '' '') (strip_prefix_dot s) else ''device'')"
| "entityName _ = ''device''"

definition prompt_for_one :: "string \<Rightarrow> string \<Rightarrow> string" where
  "prompt_for_one svc name =
     (if svc = ''unlock'' then ''This will unlock the '' @ name @ ''. Are you sure?''
      else if svc = ''alarm_disarm'' then ''This will disarm the '' @ name @ ''. Are you sure?''
      else if svc = ''open_cover'' then ''This will open the '' @ name @ ''. Are you sure?''
      else ''This will '' @ replace_first (CHR ''_'') (CHR '' '') svc @ '' the '' @ name
             @ ''. Are you sure?'')"

fun generateConfirmationPrompt_for :: "string \<Rightarrow> string \<Rightarrow> entity_ref option \<Rightarrow> string" where
  "generateConfirmationPrompt_for dmn svc (Some (Single s)) =
     (if s = ''all''
      then ''This will '' @ replace_first (CHR ''_'') (CHR '' '') svc @ '' ALL '' @ dmn
             @ '' devices. Are you sure?''
      else prompt_for_one svc (entityName (Some (Single s))))"
| "generateConfirmationPrompt_for dmn svc (Some (Multi xs)) =
     (if length xs > 1
      then ''This will '' @ replace_first (CHR ''_'') (CHR '' '') svc @ '' '' @ show_nat (length xs)
             @ '' '' @ dmn @ '' devices. Are you sure?''
      else prompt_for_one svc (entityName (Some (Multi xs))))"
| "generateConfirmationPrompt_for dmn svc None = prompt_for_one svc (entityName None)"

definition generateConfirmationPrompt :: "HAServiceCallRequest \<Rightarrow> string" where
  "generateConfirmationPrompt serviceCall =
     generateConfirmationPrompt_for (domain serviceCall) (service serviceCall) (entity_id serviceCall)"

subsection \<open>Sanitizing\<close>

text \<open>The character class of \<^verbatim>\<open>/[;&|`$(){}[\]\\]/g\<close>; \<open>0x60\<close> is the backtick, \<open>0x5C\<close> the backslash.\<close>

definition dangerous :: "char list" where
  "dangerous =
     [CHR '';'', CHR ''&'', CHR ''|'', CHR 0x60, CHR ''$'', CHR ''('', CHR '')'',
      CHR ''{'', CHR ''}'', CHR ''['', CHR '']'', CHR 0x5C]"

text \<open>
  \<^verbatim>\<open>sanitizeEntityId(serviceCall.entity_id as string)\<close>. The cast does not convert: an
  array reaches \<^verbatim>\<open>entityId.replace\<close>, arrays have no such method, and the call raises
  a \<^verbatim>\<open>TypeError\<close>.
\<close>

fun sanitizeEntityId :: "entity_ref \<Rightarrow> js_error + string" where
  "sanitizeEntityId (Single s) = Inr (filter (\<lambda>c. \<not> List.member dangerous c) s)"
| "sanitizeEntityId (Multi xs) = Inl (TypeError ''entityId.replace is not a function'')"

text \<open>
  \<^verbatim>\<open>if (serviceCall.entity_id) { validation.sanitizedEntityId = ... }\<close>: the new value of
  the field, or the exception of the call.
\<close>

fun sanitize_if_present :: "entity_ref option \<Rightarrow> string option \<Rightarrow> js_error + string option" where
  "sanitize_if_present (Some e) old =
     (if truthy_entity (Some e) then map_sum id Some (sanitizeEntityId e) else Inr old)"
| "sanitize_if_present None old = Inr old"

subsection \<open>validateServiceCall\<close>

text \<open>The \<^verbatim>\<open>for\<close> loop of the entity check: the first id that the whitelist lacks.\<close>

fun first_not_allowed :: "string list \<Rightarrow> string list \<Rightarrow> string option" where
  "first_not_allowed wl [] = None"
| "first_not_allowed wl (e # es) =
     (if \<not> List.member wl e then Some e else first_not_allowed wl es)"

fun entityIds :: "entity_ref option \<Rightarrow> string list" where
  "entityIds (Some (Multi xs)) = xs"
| "entityIds (Some (Single s)) = [s]"
| "entityIds None = []"

text \<open>
  How the \<^verbatim>\<open>try\<close> block ends: with a \<^verbatim>\<open>return validation\<close>, or with an exception; either
  way the \<^verbatim>\<open>validation\<close> object is as the block left it.
\<close>

datatype completion = Returned SecurityValidation | Thrown js_error SecurityValidation

text \<open>The object literal \<^verbatim>\<open>validation\<close> starts as.\<close>

definition fresh_validation :: SecurityValidation where
  "fresh_validation =
     \<lparr> allowed = False, reason = None, requiresConfirmation = False,
       confirmationPrompt = None, sanitizedEntityId = None \<rparr>"

definition audit_of_call :: "string \<Rightarrow> HAServiceCallRequest \<Rightarrow> AuditFields" where
  "audit_of_call act serviceCall =
     \<lparr> action = act, audit_domain = Some (domain serviceCall),
       audit_service = Some (service serviceCall), audit_entity_id = entity_id serviceCall,
       audit_allowed = True, violation_type = None, audit_confirmed = None \<rparr>"

definition try_block ::
  "SecurityController \<Rightarrow> nat \<Rightarrow> HAServiceCallRequest \<Rightarrow> SecurityValidation
     \<Rightarrow> completion \<times> SecurityController" where
  "try_block sc now serviceCall validation =
     (if \<not> List.member (allowedDomains (config sc)) (domain serviceCall) then
        (Returned (validation\<lparr>reason := Some (''Domain \"'' @ domain serviceCall @ ''\" not allowed'')\<rparr>),
         addAuditEntry sc now
           ((audit_of_call ''security_violation'' serviceCall)
              \<lparr>audit_allowed := False, violation_type := Some ''domain_not_allowed''\<rparr>))
      else
        (case (if length (entityWhitelist (config sc)) > 0 \<and> truthy_entity (entity_id serviceCall)
               then first_not_allowed (entityWhitelist (config sc)) (entityIds (entity_id serviceCall))
               else None) of
           Some entityId \<Rightarrow>
             (Returned (validation\<lparr>reason := Some (''Entity \"'' @ entityId @ ''\" not allowed'')\<rparr>),
              addAuditEntry sc now
                ((audit_of_call ''security_violation'' serviceCall)
                   \<lparr>audit_entity_id := Some (Single entityId), audit_allowed := False,
                     violation_type := Some ''entity_not_allowed''\<rparr>))
         | None \<Rightarrow>
             (let requiresConfirmation = isHighRiskAction serviceCall in
              if requiresConfirmation \<and> confirmHighRiskActions (config sc)
                 \<and> \<not> truthy_flag (confirmed serviceCall)
              then
                (Returned (validation
                   \<lparr>requiresConfirmation := True,
                    confirmationPrompt := Some (generateConfirmationPrompt serviceCall),
                    allowed := False,
                    reason := Some ''Confirmation required for high-risk action''\<rparr>),
                 sc)
              else
                (let sc1 = (if requiresConfirmation \<and> confirmHighRiskActions (config sc)
                            then addAuditEntry sc now
                                   ((audit_of_call ''high_risk_confirmed'' serviceCall)
                                      \<lparr>audit_confirmed := Some True\<rparr>)
                            else sc);
                     sanitized = sanitize_if_present (entity_id serviceCall)
                                   (sanitizedEntityId validation)
                 in case sanitized of
                      Inl err \<Rightarrow> (Thrown err validation, sc1)
                    | Inr sid \<Rightarrow>
                        (Returned (validation\<lparr>sanitizedEntityId := sid, allowed := True\<rparr>),
                         addAuditEntry sc1 now
                           (audit_of_call ''service_call_validation'' serviceCall))))))"

text \<open>
  \<^verbatim>\<open>validateServiceCall\<close>: the verdict and the controller after the call. The \<^verbatim>\<open>catch\<close>
  clause writes a log line, sets the reason and returns the \<^verbatim>\<open>validation\<close> object; the
  entries the block appended before the exception stay in the log. The body runs without
  a pause, and the two entries one call can append carry the same reading \<open>now\<close> of the
  clock.
\<close>

definition validateServiceCall ::
  "SecurityController \<Rightarrow> nat \<Rightarrow> HAServiceCallRequest \<Rightarrow> SecurityValidation \<times> SecurityController" where
  "validateServiceCall sc now serviceCall =
     (case try_block sc now serviceCall fresh_validation of
        (Returned validation, sc') \<Rightarrow> (validation, sc')
      | (Thrown err validation, sc') \<Rightarrow>
          (validation\<lparr>reason := Some (''Validation error: '' @ error_message err)\<rparr>, sc'))"

section \<open>HABridge\<close>

subsection \<open>State\<close>

text \<open>\<^verbatim>\<open>ws.readyState\<close>.\<close>

datatype ready_state = CONNECTING | OPEN | CLOSING | CLOSED

text \<open>A payload the bridge passes on unread, as its JSON text.\<close>

type_synonym json = string

text \<open>
  The request objects the bridge builds, by their \<^verbatim>\<open>type\<close> field. \<open>message_id\<close> is the
  field \<^verbatim>\<open>id\<close> (the name \<open>id\<close> is HOL's identity function). A JavaScript number counts
  exactly up to \<open>2 ^ 53\<close>; the ids are natural numbers here.
\<close>

datatype request_body =
    CallServiceBody string string "entity_ref option" "service_data option"
  | GetStatesBody
  | SubscribeEventsBody "string option"
  | UnsubscribeEventsBody nat

record request_message =
  message_id :: nat
  body :: request_body

datatype frame = AuthFrame string | RequestFrame request_message

datatype settlement = Resolved json | Rejected js_error

text \<open>
  An entry of \<^verbatim>\<open>pendingRequests\<close>: \<^verbatim>\<open>resolve\<close> and \<^verbatim>\<open>reject\<close> are the two functions of one
  promise, named here by that promise; \<^verbatim>\<open>timeout\<close> is the handle \<^verbatim>\<open>setTimeout\<close> returned.
\<close>

record pending_request =
  promise :: nat
  timeout :: nat

text \<open>
  An armed timer of \<^verbatim>\<open>sendRequest\<close>: its callback deletes the entry of \<open>timer_request\<close>
  and rejects \<open>timer_promise\<close>, \<open>delay\<close> milliseconds after it was set.
\<close>

record timer =
  timer_request :: nat
  timer_promise :: nat
  delay :: nat

text \<open>
  An inbound message after \<^verbatim>\<open>JSON.parse\<close>: the fields \<^verbatim>\<open>handleMessage\<close> and its callees
  read. \<open>error_text\<close> is \<^verbatim>\<open>message.error?.message\<close>, \<open>auth_text\<close> is \<^verbatim>\<open>message.message\<close>,
  \<open>event\<close> is \<^verbatim>\<open>message.event\<close> as its \<^verbatim>\<open>event_type\<close> and \<^verbatim>\<open>data\<close>.
\<close>

record in_message =
  mtype :: string
  mid :: "nat option"
  success :: bool
  result :: json
  error_text :: "string option"
  auth_text :: string
  event :: "(string \<times> json) option"

datatype incoming = Malformed string | Parsed in_message

text \<open>
  The fields of the class, and the part of the runtime its callbacks live in: the
  promises \<^verbatim>\<open>sendRequest\<close> made (\<open>promises\<close> holds the settled ones, a promise settles
  once), the promises \<^verbatim>\<open>connect\<close> made, the armed timers, the frames written to the socket
  and the events emitted. \<open>once_auth_required\<close>, \<open>once_auth_ok\<close> and \<open>once_auth_invalid\<close>
  are the listeners \<^verbatim>\<open>connect\<close> registers with \<^verbatim>\<open>this.once\<close>, the latter two by the promise
  of the \<^verbatim>\<open>connect\<close> call they settle; \<open>ws_connect\<close> is the promise the handlers of the current
  socket reject on a transport error. Only the current socket is followed.
\<close>

record HABridge =
  ws :: "ready_state option"
  token :: string
  securityController :: "SecurityController option"
  messageId :: nat
  pendingRequests :: "nat \<rightharpoonup> pending_request"
  reconnecting :: bool
  connected :: bool
  promises :: "nat \<rightharpoonup> settlement"
  promiseCount :: nat
  timers :: "nat \<rightharpoonup> timer"
  timerCount :: nat
  connectPromises :: "nat \<rightharpoonup> settlement"
  connectCount :: nat
  ws_connect :: nat
  once_auth_required :: nat
  once_auth_ok :: "nat list"
  once_auth_invalid :: "nat list"
  sent :: "frame list"
  emitted :: "(string \<times> json) list"

text \<open>The constructor: \<^verbatim>\<open>messageId = 1\<close>, an empty table, both flags false, no socket.\<close>

definition newBridge :: "string \<Rightarrow> SecurityController option \<Rightarrow> HABridge" where
  "newBridge tok sc =
     \<lparr> ws = None, token = tok, securityController = sc, messageId = 1,
       pendingRequests = Map.empty, reconnecting = False, connected = False,
       promises = Map.empty, promiseCount = 0, timers = Map.empty, timerCount = 0,
       connectPromises = Map.empty, connectCount = 0, ws_connect = 0,
       once_auth_required = 0, once_auth_ok = [], once_auth_invalid = [],
       sent = [], emitted = [] \<rparr>"

subsection \<open>Promises, events, the socket\<close>

definition settle :: "HABridge \<Rightarrow> nat \<Rightarrow> settlement \<Rightarrow> HABridge" where
  "settle b p r =
     (case promises b p of
        None \<Rightarrow> b\<lparr>promises := (promises b)(p \<mapsto> r)\<rparr>
      | Some done \<Rightarrow> b)"

definition settle_connect :: "HABridge \<Rightarrow> nat \<Rightarrow> settlement \<Rightarrow> HABridge" where
  "settle_connect b p r =
     (case connectPromises b p of
        None \<Rightarrow> b\<lparr>connectPromises := (connectPromises b)(p \<mapsto> r)\<rparr>
      | Some done \<Rightarrow> b)"

definition emit :: "HABridge \<Rightarrow> string \<Rightarrow> json \<Rightarrow> HABridge" where
  "emit b name payload = b\<lparr>emitted := emitted b @ [(name, payload)]\<rparr>"

text \<open>\<^verbatim>\<open>send\<close>: the frame is written when the socket exists and is open, and dropped otherwise.\<close>

definition send :: "HABridge \<Rightarrow> frame \<Rightarrow> HABridge" where
  "send b f = (if ws b = Some OPEN then b\<lparr>sent := sent b @ [f]\<rparr> else b)"

definition authenticate :: "HABridge \<Rightarrow> HABridge" where
  "authenticate b = send b (AuthFrame (token b))"

subsection \<open>Requests\<close>

text \<open>
  \<^verbatim>\<open>sendRequest(message, timeout = 5000)\<close>: the promise's executor arms the timer, stores the
  entry under \<^verbatim>\<open>message.id\<close> and calls \<^verbatim>\<open>send\<close>. The result is the bridge and the new
  promise.
\<close>

definition sendRequest :: "HABridge \<Rightarrow> request_message \<Rightarrow> nat option \<Rightarrow> HABridge \<times> nat" where
  "sendRequest b message tmo =
     (let p = promiseCount b;
          h = timerCount b;
          b1 = b\<lparr>promiseCount := p + 1, timerCount := h + 1,
                 timers := (timers b)(h \<mapsto>
                   \<lparr> timer_request = message_id message, timer_promise = p,
                     delay = (case tmo of None \<Rightarrow> 5000 | Some t \<Rightarrow> t) \<rparr>)\<rparr>;
          b2 = b1\<lparr>pendingRequests :=
                 (pendingRequests b1)(message_id message \<mapsto> \<lparr> promise = p, timeout = h \<rparr>)\<rparr>
      in (send b2 (RequestFrame message), p))"

text \<open>The callback of that timer, when the runtime runs it; a cleared timer never runs.\<close>

definition fire_timer :: "HABridge \<Rightarrow> nat \<Rightarrow> HABridge" where
  "fire_timer b h =
     (case timers b h of
        None \<Rightarrow> b
      | Some t \<Rightarrow>
          settle (b\<lparr>timers := (timers b)(h := None),
                    pendingRequests := (pendingRequests b)(timer_request t := None)\<rparr>)
            (timer_promise t) (Rejected (Error ''Request timeout'')))"

text \<open>\<^verbatim>\<open>handleResponse\<close>, called with a message whose \<^verbatim>\<open>id\<close> is \<open>i\<close>.\<close>

definition handleResponse :: "HABridge \<Rightarrow> nat \<Rightarrow> in_message \<Rightarrow> HABridge" where
  "handleResponse b i message =
     (case pendingRequests b i of
        None \<Rightarrow> b
      | Some pending \<Rightarrow>
          (let b1 = b\<lparr>timers := (timers b)(timeout pending := None),
                       pendingRequests := (pendingRequests b)(i := None)\<rparr>
           in if success message then settle b1 (promise pending) (Resolved (result message))
              else settle b1 (promise pending)
                     (Rejected (Error (case error_text message of
                                         None \<Rightarrow> ''Unknown error''
                                       | Some t \<Rightarrow> (if t = [] then ''Unknown error'' else t))))))"

text \<open>
  What the outcome of an \<^verbatim>\<open>async\<close> method is: it threw, or it awaits a request.
  \<^verbatim>\<open>callService\<close> is one step here. Its \<^verbatim>\<open>await\<close> of the validation lets other pending
  continuations run before the id is taken, but no timer and no socket event; the
  validation writes the controller only and the rest writes the bridge only, so the order
  of those continuations changes neither.
\<close>

datatype call_outcome = Failed js_error | Waiting nat

definition callService ::
  "HABridge \<Rightarrow> nat \<Rightarrow> HAServiceCallRequest \<Rightarrow> nat option \<Rightarrow> HABridge \<times> call_outcome" where
  "callService b now serviceCall tmo =
     (let (denied, b1) =
            (case securityController b of
               None \<Rightarrow> (None, b)
             | Some sc \<Rightarrow>
                 (let (validation, sc') = validateServiceCall sc now serviceCall
                  in (if \<not> allowed validation
                      then Some (Error (case reason validation of None \<Rightarrow> [] | Some r \<Rightarrow> r))
                      else None,
                      b\<lparr>securityController := Some sc'\<rparr>)))
      in case denied of
           Some err \<Rightarrow> (b1, Failed err)
         | None \<Rightarrow>
             (let i = messageId b1;
                  b2 = b1\<lparr>messageId := i + 1\<rparr>;
                  message = \<lparr> message_id = i,
                              body = CallServiceBody (domain serviceCall) (service serviceCall)
                                (if truthy_entity (entity_id serviceCall)
                                 then entity_id serviceCall else None)
                                (data serviceCall) \<rparr>;
                  (b3, p) = sendRequest b2 message tmo
              in (b3, Waiting p)))"

definition getStates :: "HABridge \<Rightarrow> HABridge \<times> nat" where
  "getStates b =
     (let i = messageId b
      in sendRequest (b\<lparr>messageId := i + 1\<rparr>) \<lparr> message_id = i, body = GetStatesBody \<rparr> None)"

definition subscribeEvents :: "HABridge \<Rightarrow> string option \<Rightarrow> HABridge \<times> nat" where
  "subscribeEvents b eventType =
     (let i = messageId b
      in sendRequest (b\<lparr>messageId := i + 1\<rparr>)
           \<lparr> message_id = i,
             body = SubscribeEventsBody (case eventType of
                                           None \<Rightarrow> None
                                         | Some t \<Rightarrow> (if t = [] then None else Some t)) \<rparr>
           None)"

definition unsubscribeEvents :: "HABridge \<Rightarrow> nat \<Rightarrow> HABridge \<times> nat" where
  "unsubscribeEvents b subscriptionId =
     (let i = messageId b
      in sendRequest (b\<lparr>messageId := i + 1\<rparr>)
           \<lparr> message_id = i, body = UnsubscribeEventsBody subscriptionId \<rparr> None)"

subsection \<open>Inbound messages\<close>

text \<open>
  \<^verbatim>\<open>handleEvent(message.event)\<close>: reading \<^verbatim>\<open>event_type\<close> of an absent event raises, before
  anything has changed.
\<close>

definition handleEvent :: "HABridge \<Rightarrow> (string \<times> json) option \<Rightarrow> js_error + HABridge" where
  "handleEvent b ev =
     (case ev of
        None \<Rightarrow> Inl (TypeError ''Cannot read properties of undefined (reading 'event_type')'')
      | Some (event_type, payload) \<Rightarrow>
          (if event_type = ''state_changed'' then Inr (emit b ''state_changed'' payload)
           else if event_type = ''hue_event'' then Inr (emit b ''hue_event'' payload)
           else Inr b))"

text \<open>
  The three \<^verbatim>\<open>once\<close> listeners of \<^verbatim>\<open>connect\<close>, run by the \<^verbatim>\<open>emit\<close> of their event and
  removed by it.
\<close>

definition emit_auth_required :: "HABridge \<Rightarrow> HABridge" where
  "emit_auth_required b =
     (authenticate ^^ once_auth_required b)
       ((emit b ''auth_required'' [])\<lparr>once_auth_required := 0\<rparr>)"

definition emit_auth_ok :: "HABridge \<Rightarrow> HABridge" where
  "emit_auth_ok b =
     foldl (\<lambda>s p. settle_connect (emit (s\<lparr>connected := True\<rparr>) ''connected'' []) p (Resolved []))
       ((emit b ''auth_ok'' [])\<lparr>once_auth_ok := []\<rparr>) (once_auth_ok b)"

definition emit_auth_invalid :: "HABridge \<Rightarrow> string \<Rightarrow> HABridge" where
  "emit_auth_invalid b text =
     foldl (\<lambda>s p. settle_connect (emit s ''auth_error'' text) p
                     (Rejected (Error (''Authentication failed: '' @ text))))
       ((emit b ''auth_invalid'' text)\<lparr>once_auth_invalid := []\<rparr>) (once_auth_invalid b)"

text \<open>\<^verbatim>\<open>message.id\<close> is truthy when it is present and not 0.\<close>

fun truthy_id :: "nat option \<Rightarrow> bool" where
  "truthy_id None = False"
| "truthy_id (Some i) = (i \<noteq> 0)"

definition handleMessage :: "HABridge \<Rightarrow> in_message \<Rightarrow> js_error + HABridge" where
  "handleMessage b message =
     (if mtype message = ''auth_required'' then Inr (emit_auth_required b)
      else if mtype message = ''auth_ok'' then Inr (emit_auth_ok b)
      else if mtype message = ''auth_invalid'' then Inr (emit_auth_invalid b (auth_text message))
      else (case (if mtype message = ''result'' \<and> truthy_id (mid message)
                  then mid message else None) of
              Some i \<Rightarrow> Inr (handleResponse b i message)
            | None \<Rightarrow>
                (if mtype message = ''event'' then handleEvent b (event message)
                 else Inr b)))"

subsection \<open>The socket's handlers, connect and disconnect\<close>

text \<open>
  \<^verbatim>\<open>ws.on('message', ...)\<close>: a text that does not parse, or an exception of
  \<^verbatim>\<open>handleMessage\<close>, is reported as a \<^verbatim>\<open>message_error\<close> event.
\<close>

definition ws_message :: "HABridge \<Rightarrow> incoming \<Rightarrow> HABridge" where
  "ws_message b raw =
     (case raw of
        Malformed why \<Rightarrow> emit b ''message_error'' why
      | Parsed message \<Rightarrow>
          (case handleMessage b message of
             Inl err \<Rightarrow> emit b ''message_error'' (error_message err)
           | Inr b' \<Rightarrow> b'))"

text \<open>The socket opens: the handler writes a log line; the library sets \<^verbatim>\<open>readyState\<close>.\<close>

definition ws_open :: "HABridge \<Rightarrow> HABridge" where
  "ws_open b = (case ws b of Some CONNECTING \<Rightarrow> b\<lparr>ws := Some OPEN\<rparr> | _ \<Rightarrow> b)"

text \<open>\<^verbatim>\<open>ws.on('close', ...)\<close>; \<open>why\<close> stands for the code and the reason.\<close>

definition ws_close :: "HABridge \<Rightarrow> json \<Rightarrow> HABridge" where
  "ws_close b why =
     emit (b\<lparr>connected := False, ws := map_option (\<lambda>st. CLOSED) (ws b)\<rparr>) ''disconnected'' why"

text \<open>\<^verbatim>\<open>ws.on('error', ...)\<close>: a log line, the event, and the rejection of \<^verbatim>\<open>connect\<close>'s promise.\<close>

definition ws_error :: "HABridge \<Rightarrow> string \<Rightarrow> HABridge" where
  "ws_error b why =
     settle_connect (emit b ''connection_error'' why) (ws_connect b) (Rejected (Error why))"

definition connect :: "HABridge \<Rightarrow> HABridge \<times> nat" where
  "connect b =
     (let p = connectCount b
      in (b\<lparr>ws := Some CONNECTING, ws_connect := p, connectCount := p + 1,
            once_auth_required := once_auth_required b + 1,
            once_auth_ok := once_auth_ok b @ [p],
            once_auth_invalid := once_auth_invalid b @ [p]\<rparr>, p))"

definition disconnect :: "HABridge \<Rightarrow> HABridge" where
  "disconnect b = b\<lparr>connected := False, ws := None\<rparr>"

section \<open>Runs of the bridge\<close>

text \<open>
  JavaScript runs one callback at a time. An event is one call of a public method or
  one callback of the runtime (a socket event, a timer); a run is a sequence of them.
  \<open>CallService\<close> carries the reading of the clock, the request and \<^verbatim>\<open>options.timeout\<close>.
\<close>

datatype event =
    CallService nat HAServiceCallRequest "nat option"
  | GetStates
  | SubscribeEvents "string option"
  | UnsubscribeEvents nat
  | Connect
  | Disconnect
  | WsOpen
  | WsMessage incoming
  | WsClose json
  | WsError string
  | TimerFires nat

fun step :: "HABridge \<Rightarrow> event \<Rightarrow> HABridge" where
  "step b (CallService now serviceCall tmo) = fst (callService b now serviceCall tmo)"
| "step b GetStates = fst (getStates b)"
| "step b (SubscribeEvents eventType) = fst (subscribeEvents b eventType)"
| "step b (UnsubscribeEvents subscriptionId) = fst (unsubscribeEvents b subscriptionId)"
| "step b Connect = fst (connect b)"
| "step b Disconnect = disconnect b"
| "step b WsOpen = ws_open b"
| "step b (WsMessage raw) = ws_message b raw"
| "step b (WsClose why) = ws_close b why"
| "step b (WsError why) = ws_error b why"
| "step b (TimerFires h) = fire_timer b h"

definition run :: "HABridge \<Rightarrow> event list \<Rightarrow> HABridge" where
  "run b evs = foldl step b evs"

text \<open>A response frame that cites request \<open>k\<close>.\<close>

fun answers :: "nat \<Rightarrow> event \<Rightarrow> bool" where
  "answers k (WsMessage (Parsed message)) = (mtype message = ''result'' \<and> mid message = Some k)"
| "answers k ev = False"

text \<open>
  What every run keeps true: ids, promises and timer handles in use are below their
  counters, so the next one of each is new.
\<close>

definition handles_below_counters :: "HABridge \<Rightarrow> bool" where
  "handles_below_counters b =
     ((\<forall>h t. timers b h = Some t \<longrightarrow>
          h < timerCount b \<and> timer_promise t < promiseCount b \<and> timer_request t < messageId b)
      \<and> (\<forall>i pr. pendingRequests b i = Some pr \<longrightarrow>
          i < messageId b \<and> promise pr < promiseCount b \<and> timeout pr < timerCount b)
      \<and> (\<forall>p r. promises b p = Some r \<longrightarrow> p < promiseCount b))"

section \<open>Predicates on the state of the requests\<close>

text \<open>The part of the bridge that requests, responses and timers read and write.\<close>

definition request_state ::
  "HABridge \<Rightarrow> nat \<times> (nat \<rightharpoonup> pending_request) \<times> (nat \<rightharpoonup> settlement) \<times> nat \<times> (nat \<rightharpoonup> timer) \<times> nat" where
  "request_state b =
     (messageId b, pendingRequests b, promises b, promiseCount b, timers b, timerCount b)"

text \<open>
  Request \<open>k\<close> is outstanding: its entry holds promise \<open>p\<close> and timer \<open>h\<close>, the timer is
  armed, the promise is not settled, and no other entry or timer refers to any of the
  three.
\<close>

definition in_flight :: "HABridge \<Rightarrow> nat \<Rightarrow> nat \<Rightarrow> nat \<Rightarrow> bool" where
  "in_flight s k p h =
     ((\<exists>d. timers s h = Some \<lparr> timer_request = k, timer_promise = p, delay = d \<rparr>)
      \<and> pendingRequests s k = Some \<lparr> promise = p, timeout = h \<rparr>
      \<and> promises s p = None
      \<and> k < messageId s \<and> p < promiseCount s \<and> h < timerCount s
      \<and> (\<forall>h' t. timers s h' = Some t \<and> h' \<noteq> h \<longrightarrow> timer_promise t \<noteq> p \<and> timer_request t \<noteq> k)
      \<and> (\<forall>i pr. pendingRequests s i = Some pr \<and> i \<noteq> k \<longrightarrow> promise pr \<noteq> p \<and> timeout pr \<noteq> h))"

text \<open>Request \<open>k\<close> has timed out: no entry, and promise \<open>p\<close> rejected by the timer.\<close>

definition timed_out :: "HABridge \<Rightarrow> nat \<Rightarrow> nat \<Rightarrow> bool" where
  "timed_out s k p =
     (pendingRequests s k = None
      \<and> promises s p = Some (Rejected (Error ''Request timeout''))
      \<and> k < messageId s)"

section \<open>Example values\<close>

definition example_config :: SecurityConfig where
  "example_config =
     \<lparr> allowedDomains = [''light'', ''lock'', ''water_heater''], entityWhitelist = [],
       confirmHighRiskActions = True \<rparr>"

definition example_controller :: SecurityController where
  "example_controller = \<lparr> config = example_config, auditEntries = [] \<rparr>"

definition example_bridge :: HABridge where
  "example_bridge = newBridge ''secret'' (Some example_controller)"

definition unlock_front_door :: HAServiceCallRequest where
  "unlock_front_door =
     \<lparr> domain = ''lock'', service = ''unlock'', entity_id = Some (Single ''lock.front_door''),
       data = None, confirmed = None \<rparr>"

definition unlock_both_confirmed :: HAServiceCallRequest where
  "unlock_both_confirmed =
     \<lparr> domain = ''lock'', service = ''unlock'',
       entity_id = Some (Multi [''lock.front_door'', ''lock.back_door'']),
       data = None, confirmed = Some True \<rparr>"

definition switch_on :: HAServiceCallRequest where
  "switch_on =
     \<lparr> domain = ''switch'', service = ''turn_on'', entity_id = Some (Single ''switch.pump''),
       data = None, confirmed = None \<rparr>"

definition set_tank_to_zero :: HAServiceCallRequest where
  "set_tank_to_zero =
     \<lparr> domain = ''water_heater'', service = ''set_temperature'',
       entity_id = Some (Single ''water_heater.tank''),
       data = Some [''temperature'' \<mapsto> 0], confirmed = None \<rparr>"

definition lights_off :: HAServiceCallRequest where
  "lights_off =
     \<lparr> domain = ''light'', service = ''turn_off'',
       entity_id = Some (Multi [''light.kitchen'', ''light.hall'']),
       data = None, confirmed = None \<rparr>"

definition lights_on :: HAServiceCallRequest where
  "lights_on =
     \<lparr> domain = ''light'', service = ''turn_on'',
       entity_id = Some (Multi [''light.kitchen'', ''light.hall'']),
       data = None, confirmed = None \<rparr>"

definition one_entry_controller :: SecurityController where
  "one_entry_controller =
     addAuditEntry example_controller 7 (audit_of_call ''service_call_validation'' switch_on)"

text \<open>The request \<^verbatim>\<open>get_states\<close> with id 1, and a response frame that cites it.\<close>

definition first_request :: request_message where
  "first_request = \<lparr> message_id = 1, body = GetStatesBody \<rparr>"

definition first_response :: event where
  "first_response =
     WsMessage (Parsed \<lparr> mtype = ''result'', mid = Some 1, success = True, result = ''[]'',
                         error_text = None, auth_text = [], event = None \<rparr>)"

text \<open>A bridge whose socket has opened, before any \<^verbatim>\<open>auth_ok\<close>, and the same with a request out.\<close>

definition opened_bridge :: HABridge where
  "opened_bridge = ws_open (fst (connect example_bridge))"

definition waiting_bridge :: HABridge where
  "waiting_bridge = fst (getStates opened_bridge)"

section \<open>Evaluation\<close>

lemmas example_defs =
  example_config_def example_controller_def example_bridge_def newBridge_def
  unlock_front_door_def unlock_both_confirmed_def switch_on_def set_tank_to_zero_def
  lights_off_def lights_on_def one_entry_controller_def first_request_def first_response_def
  opened_bridge_def waiting_bridge_def

lemmas security_defs =
  validateServiceCall_def fresh_validation_def try_block_def addAuditEntry_def stamp_def
  audit_of_call_def isHighRiskAction_def highRiskDomains_def highRiskActions_def
  generateConfirmationPrompt_def prompt_for_one_def js_slice_def Let_def

lemmas bridge_defs =
  callService_def getStates_def sendRequest_def send_def fire_timer_def settle_def
  connect_def ws_open_def ws_close_def emit_def

section \<open>The audit log: facts\<close>

lemma js_slice_last: "js_slice (- 1000) xs = drop (length xs - 1000) xs"
  by (simp add: js_slice_def nat_diff_distrib')

section \<open>Domain check\<close>

text \<open>
  C1. A request whose domain is not in \<^verbatim>\<open>allowedDomains\<close> gets the verdict
  \<^verbatim>\<open>allowed = false\<close> with the reason \<^verbatim>\<open>Domain "..." not allowed\<close>; the audit log
  afterwards is the old log with exactly one more entry, tagged \<^verbatim>\<open>domain_not_allowed\<close>,
  cut to its last 1000; and \<^verbatim>\<open>callService\<close> of a bridge with that controller throws the
  reason before it takes an id: \<^verbatim>\<open>messageId\<close>, the frames sent and the table of pending
  requests are as they were.
\<close>

theorem domain_not_allowed_denied:
  assumes "domain serviceCall \<notin> set (allowedDomains (config sc))"
    and "securityController b = Some sc"
  shows "\<exists>v sc' e.
      validateServiceCall sc now serviceCall = (v, sc')
    \<and> allowed v = False \<and> requiresConfirmation v = False
    \<and> reason v = Some (''Domain \"'' @ domain serviceCall @ ''\" not allowed'')
    \<and> auditEntries sc' = drop (length (auditEntries sc) + 1 - 1000) (auditEntries sc @ [e])
    \<and> action e = ''security_violation'' \<and> violation_type e = Some ''domain_not_allowed''
    \<and> audit_domain e = Some (domain serviceCall) \<and> audit_allowed e = False
    \<and> config sc' = config sc
    \<and> callService b now serviceCall tmo
        = (b\<lparr>securityController := Some sc'\<rparr>,
           Failed (Error (''Domain \"'' @ domain serviceCall @ ''\" not allowed'')))
    \<and> messageId (fst (callService b now serviceCall tmo)) = messageId b
    \<and> sent (fst (callService b now serviceCall tmo)) = sent b
    \<and> pendingRequests (fst (callService b now serviceCall tmo)) = pendingRequests b"
  using assms
  by (simp add: validateServiceCall_def fresh_validation_def try_block_def callService_def
      addAuditEntry_def js_slice_last stamp_def audit_of_call_def Let_def)

text \<open>The theorem at the example bridge and a request for a switch.\<close>

theorem domain_not_allowed_denied_witness:
  "domain switch_on \<notin> set (allowedDomains (config example_controller))
   \<and> securityController example_bridge = Some example_controller
   \<and> snd (callService example_bridge 7 switch_on None)
       = Failed (Error (''Domain \"switch\" not allowed''))
   \<and> messageId (fst (callService example_bridge 7 switch_on None)) = 1
   \<and> sent (fst (callService example_bridge 7 switch_on None)) = []"
  using domain_not_allowed_denied [of switch_on example_controller example_bridge 7 None]
  by (auto simp add: switch_on_def example_controller_def example_config_def
      example_bridge_def newBridge_def)

section \<open>The policy engine: facts\<close>

lemma isHighRiskAction_iff:
  "isHighRiskAction c \<longleftrightarrow>
     domain c \<in> set highRiskDomains
     \<or> service c \<in> set highRiskActions
     \<or> entity_id c = Some (Single ''all'')
     \<or> (\<exists>xs. entity_id c = Some (Multi xs) \<and> 5 < length xs)
     \<or> (service c = ''set_temperature''
        \<and> (\<exists>d t. data c = Some d \<and> d ''temperature'' = Some t \<and> t \<noteq> 0 \<and> (t < 10 \<or> 30 < t)))"
proof -
  have m: "many_or_all (entity_id c) \<longleftrightarrow>
      entity_id c = Some (Single ''all'') \<or> (\<exists>xs. entity_id c = Some (Multi xs) \<and> 5 < length xs)"
    by (cases "entity_id c" rule: many_or_all.cases) auto
  have t: "\<And>x. temperature_out_of_band x \<longleftrightarrow> (\<exists>t. x = Some t \<and> t \<noteq> 0 \<and> (t < 10 \<or> 30 < t))"
    by (case_tac x) auto
  show ?thesis
    unfolding isHighRiskAction_def m t
    by (cases "data c") auto
qed

lemma addAuditEntry_entries:
  "auditEntries (addAuditEntry sc now e)
     = drop (length (auditEntries sc) + 1 - 1000) (auditEntries sc @ [stamp e now])"
  by (simp add: addAuditEntry_def Let_def js_slice_last)

lemma audit_log_bounded:
  "length (auditEntries (addAuditEntry sc now e)) \<le> 1000"
  by (simp add: addAuditEntry_entries)

lemma getAuditLog_positive:
  assumes "0 < l"
  shows "getAuditLog sc (Some l) = drop (length (auditEntries sc) - nat l) (auditEntries sc)"
    and "length (getAuditLog sc (Some l)) \<le> min (nat l) (length (auditEntries sc))"
  using assms by (simp_all add: getAuditLog_def js_slice_def nat_diff_distrib')

lemma getAuditLog_zero: "getAuditLog sc (Some 0) = auditEntries sc"
  by (simp add: getAuditLog_def js_slice_def)

lemma generateConfirmationPrompt_nonempty: "generateConfirmationPrompt c \<noteq> []"
  by (cases "entity_id c" rule: truthy_entity.cases)
    (simp_all add: generateConfirmationPrompt_def prompt_for_one_def)

lemma isHighRiskAction_confirmed [simp]:
  "isHighRiskAction (c\<lparr>confirmed := f\<rparr>) = isHighRiskAction c"
  by (simp add: isHighRiskAction_def split: option.splits)

lemma single_target_allowed:
  assumes "domain c \<in> set (allowedDomains (config sc))"
    and "entityWhitelist (config sc) = [] \<or> s \<in> set (entityWhitelist (config sc))"
    and "entity_id c = Some (Single s)"
    and "\<not> (isHighRiskAction c \<and> confirmHighRiskActions (config sc) \<and> \<not> truthy_flag (confirmed c))"
  shows "allowed (fst (validateServiceCall sc now c))"
    and "s \<noteq> [] \<Longrightarrow> sanitizedEntityId (fst (validateServiceCall sc now c))
           = Some (filter (\<lambda>ch. ch \<notin> set dangerous) s)"
  using assms
  by (auto simp add: validateServiceCall_def fresh_validation_def try_block_def Let_def)

lemma single_target_confirmation_round_trip:
  assumes "domain c \<in> set (allowedDomains (config sc))"
    and "entityWhitelist (config sc) = [] \<or> s \<in> set (entityWhitelist (config sc))"
    and "entity_id c = Some (Single s)"
    and "isHighRiskAction c" and "confirmHighRiskActions (config sc)"
    and "\<not> truthy_flag (confirmed c)"
    and "securityController b = Some sc"
  shows "fst (validateServiceCall sc now c)
           = \<lparr> allowed = False, reason = Some ''Confirmation required for high-risk action'',
                requiresConfirmation = True,
                confirmationPrompt = Some (generateConfirmationPrompt c),
                sanitizedEntityId = None \<rparr>"
    and "generateConfirmationPrompt c \<noteq> []"
    and "callService b now c tmo
           = (b, Failed (Error ''Confirmation required for high-risk action''))"
    and "allowed (fst (validateServiceCall sc now (c\<lparr>confirmed := Some True\<rparr>)))"
    and "snd (callService b now (c\<lparr>confirmed := Some True\<rparr>) tmo) = Waiting (promiseCount b)"
    and "messageId (fst (callService b now (c\<lparr>confirmed := Some True\<rparr>) tmo)) = Suc (messageId b)"
proof -
  show v: "fst (validateServiceCall sc now c)
           = \<lparr> allowed = False, reason = Some ''Confirmation required for high-risk action'',
                requiresConfirmation = True,
                confirmationPrompt = Some (generateConfirmationPrompt c),
                sanitizedEntityId = None \<rparr>"
    using assms by (auto simp add: validateServiceCall_def fresh_validation_def try_block_def Let_def)
  show "generateConfirmationPrompt c \<noteq> []" by (rule generateConfirmationPrompt_nonempty)
  have unchanged: "snd (validateServiceCall sc now c) = sc"
    using assms by (auto simp add: validateServiceCall_def fresh_validation_def try_block_def Let_def)
  have "b\<lparr>securityController := Some sc\<rparr> = b" using assms(7) by simp
  with v unchanged assms(7) show "callService b now c tmo
           = (b, Failed (Error ''Confirmation required for high-risk action''))"
    by (simp add: callService_def Let_def case_prod_beta)
  show a: "allowed (fst (validateServiceCall sc now (c\<lparr>confirmed := Some True\<rparr>)))"
    using assms by (auto simp add: validateServiceCall_def fresh_validation_def try_block_def Let_def)
  from a assms(7) show "snd (callService b now (c\<lparr>confirmed := Some True\<rparr>) tmo) = Waiting (promiseCount b)"
    by (simp add: callService_def Let_def case_prod_beta sendRequest_def)
  from a assms(7) show "messageId (fst (callService b now (c\<lparr>confirmed := Some True\<rparr>) tmo)) = Suc (messageId b)"
    by (simp add: callService_def Let_def case_prod_beta sendRequest_def send_def)
qed

section \<open>Risk classification at temperature 0\<close>

text \<open>
  C4 says a \<^verbatim>\<open>set_temperature\<close> request is high-risk for every temperature outside
  10 to 30, the value 0 included. The code tests \<^verbatim>\<open>tempData.temperature &&\<close> before it
  compares, and 0 is falsy: the request that sets a water heater to 0 is not classified
  high-risk, while the same request with 5 is.
\<close>

theorem temperature_zero_is_not_high_risk:
  "isHighRiskAction set_tank_to_zero = False
   \<and> isHighRiskAction (set_tank_to_zero\<lparr>data := Some [''temperature'' \<mapsto> 5]\<rparr>) = True"
  by (simp add: example_defs security_defs)

section \<open>A list of targets reaches the sanitizer\<close>

text \<open>
  C5 says a request that passes the domain check, the entity check and the confirmation
  gate gets \<^verbatim>\<open>allowed = true\<close> and a sanitized target, also when the target is a list.
  The code passes the list to \<^verbatim>\<open>sanitizeEntityId\<close> under a cast to \<^verbatim>\<open>string\<close>; the call of
  \<^verbatim>\<open>replace\<close> on the array raises, and the verdict for two lights to turn on is
  \<^verbatim>\<open>allowed = false\<close> with a validation error, with no sanitized target and no audit
  entry.
\<close>

theorem list_target_is_refused_by_sanitizer:
  "validateServiceCall example_controller 7 lights_on
     = (\<lparr> allowed = False,
          reason = Some ''Validation error: entityId.replace is not a function'',
          requiresConfirmation = False, confirmationPrompt = None,
          sanitizedEntityId = None \<rparr>,
        example_controller)"
  by (simp add: example_defs security_defs)

section \<open>Confirmation of a request on a list of targets\<close>

text \<open>
  C2 says that a high-risk request first gets a confirmation prompt and, resubmitted with
  \<^verbatim>\<open>confirmed = true\<close>, is allowed and executed. For two lights to turn off the first
  half holds: the verdict requires confirmation and carries a prompt. The resubmission
  is refused by the same \<^verbatim>\<open>TypeError\<close> of the sanitizer: the verdict is \<^verbatim>\<open>allowed = false\<close>,
  \<^verbatim>\<open>callService\<close> throws, no id is taken and no frame is sent.
\<close>

theorem confirmed_list_target_is_not_executed:
  "fst (validateServiceCall example_controller 7 lights_off)
     = \<lparr> allowed = False, reason = Some ''Confirmation required for high-risk action'',
         requiresConfirmation = True,
         confirmationPrompt = Some ''This will turn off 2 light devices. Are you sure?'',
         sanitizedEntityId = None \<rparr>
   \<and> fst (validateServiceCall example_controller 7 (lights_off\<lparr>confirmed := Some True\<rparr>))
     = \<lparr> allowed = False,
         reason = Some ''Validation error: entityId.replace is not a function'',
         requiresConfirmation = False, confirmationPrompt = None, sanitizedEntityId = None \<rparr>
   \<and> snd (callService example_bridge 7 (lights_off\<lparr>confirmed := Some True\<rparr>) None)
     = Failed (Error ''Validation error: entityId.replace is not a function'')
   \<and> messageId (fst (callService example_bridge 7 (lights_off\<lparr>confirmed := Some True\<rparr>) None)) = 1
   \<and> sent (fst (callService example_bridge 7 (lights_off\<lparr>confirmed := Some True\<rparr>) None)) = []"
  by (simp add: example_defs security_defs callService_def)

section \<open>The verdict that asks for confirmation\<close>

text \<open>
  C3 says every verdict is recorded in the audit log before it is returned. The branch
  that asks for confirmation returns without a call of \<^verbatim>\<open>addAuditEntry\<close>: for the request
  to unlock the front door the verdict requires confirmation and the log is as it was.
\<close>

theorem confirmation_required_is_not_audited:
  "fst (validateServiceCall example_controller 7 unlock_front_door)
     = \<lparr> allowed = False, reason = Some ''Confirmation required for high-risk action'',
         requiresConfirmation = True,
         confirmationPrompt = Some ''This will unlock the front door. Are you sure?'',
         sanitizedEntityId = None \<rparr>
   \<and> auditEntries (snd (validateServiceCall example_controller 7 unlock_front_door))
     = auditEntries example_controller"
  by (simp add: example_defs security_defs strip_prefix_dot_def replace_all_def)

section \<open>The audit query with limit 0\<close>

text \<open>
  C9 bounds the length of \<^verbatim>\<open>getAuditLog(limit)\<close> by the limit, for every limit. The code
  is \<^verbatim>\<open>slice(-limit)\<close>, and \<^verbatim>\<open>slice(-0)\<close> is \<^verbatim>\<open>slice(0)\<close>, the whole array: on a log of one
  entry the query with limit 0 returns that entry.
\<close>

theorem audit_query_with_limit_zero:
  "getAuditLog one_entry_controller (Some 0) = auditEntries one_entry_controller
   \<and> length (getAuditLog one_entry_controller (Some 0)) = 1"
  by (simp add: example_defs security_defs getAuditLog_def)

section \<open>Errors inside validateServiceCall\<close>

text \<open>
  C10 as stated fails: an audit entry can be appended on the path that ends in the
  \<^verbatim>\<open>catch\<close> clause. For the confirmed request to unlock two locks the verdict is the
  validation error and the log has got the entry \<^verbatim>\<open>high_risk_confirmed\<close>.
\<close>

theorem audit_entry_before_validation_error_counterexample:
  "reason (fst (validateServiceCall example_controller 7 unlock_both_confirmed))
     = Some ''Validation error: entityId.replace is not a function''
   \<and> auditEntries example_controller = []
   \<and> map action (auditEntries (snd (validateServiceCall example_controller 7 unlock_both_confirmed)))
     = [''high_risk_confirmed'']"
  by (simp add: example_defs security_defs)

text \<open>
  C10, amended. \<^verbatim>\<open>validateServiceCall\<close> returns a verdict for every request. When the
  \<^verbatim>\<open>try\<close> block raises, the verdict is \<^verbatim>\<open>allowed = false\<close>, \<^verbatim>\<open>requiresConfirmation = false\<close>,
  with the reason \<^verbatim>\<open>Validation error: \<close> followed by the error's message, and the \<^verbatim>\<open>catch\<close>
  clause appends no audit entry: the log holds exactly what the block had appended before
  the error. That is the one entry \<^verbatim>\<open>high_risk_confirmed\<close> (the old log with that entry at
  its end, cut to the last 1000) when the request is high-risk and
  \<^verbatim>\<open>confirmHighRiskActions\<close> is set, in which case the request came confirmed; and it is
  nothing, the log being as it was, in every other case.
\<close>

theorem validation_error_becomes_denial:
  assumes "try_block sc now serviceCall fresh_validation = (Thrown err v, sc')"
  shows "validateServiceCall sc now serviceCall
           = (\<lparr> allowed = False, reason = Some (''Validation error: '' @ error_message err),
                requiresConfirmation = False, confirmationPrompt = None,
                sanitizedEntityId = None \<rparr>, sc')
       \<and> sc' = (if isHighRiskAction serviceCall \<and> confirmHighRiskActions (config sc)
                then addAuditEntry sc now
                       ((audit_of_call ''high_risk_confirmed'' serviceCall)
                          \<lparr>audit_confirmed := Some True\<rparr>)
                else sc)
       \<and> auditEntries sc'
           = (if isHighRiskAction serviceCall \<and> confirmHighRiskActions (config sc)
              then drop (length (auditEntries sc) + 1 - 1000)
                     (auditEntries sc
                      @ [stamp ((audit_of_call ''high_risk_confirmed'' serviceCall)
                                  \<lparr>audit_confirmed := Some True\<rparr>) now])
              else auditEntries sc)
       \<and> (isHighRiskAction serviceCall \<and> confirmHighRiskActions (config sc)
            \<longrightarrow> truthy_flag (confirmed serviceCall))"
proof -
  from assms have v: "v = fresh_validation"
    by (auto simp add: try_block_def Let_def split: if_splits option.splits sum.splits)
  from assms have log: "sc' = (if isHighRiskAction serviceCall \<and> confirmHighRiskActions (config sc)
                then addAuditEntry sc now
                       ((audit_of_call ''high_risk_confirmed'' serviceCall)
                          \<lparr>audit_confirmed := Some True\<rparr>)
                else sc)"
    by (auto simp add: try_block_def Let_def split: if_splits option.splits sum.splits)
  from assms have came_confirmed:
    "isHighRiskAction serviceCall \<and> confirmHighRiskActions (config sc)
       \<longrightarrow> truthy_flag (confirmed serviceCall)"
    by (auto simp add: try_block_def Let_def split: if_splits option.splits sum.splits)
  have entries: "auditEntries sc'
           = (if isHighRiskAction serviceCall \<and> confirmHighRiskActions (config sc)
              then drop (length (auditEntries sc) + 1 - 1000)
                     (auditEntries sc
                      @ [stamp ((audit_of_call ''high_risk_confirmed'' serviceCall)
                                  \<lparr>audit_confirmed := Some True\<rparr>) now])
              else auditEntries sc)"
    by (subst log) (simp add: addAuditEntry_entries)
  have verdict: "validateServiceCall sc now serviceCall
           = (\<lparr> allowed = False, reason = Some (''Validation error: '' @ error_message err),
                requiresConfirmation = False, confirmationPrompt = None,
                sanitizedEntityId = None \<rparr>, sc')"
    using assms v by (simp add: validateServiceCall_def fresh_validation_def)
  from verdict log entries came_confirmed show ?thesis by (intro conjI)
qed

text \<open>
  The theorem where the block raises, on both sides of its condition: at the confirmed
  request to unlock two locks, which is high-risk, the log gets the one entry; at the
  request to turn two lights on, which is not, the log stays empty.
\<close>

theorem validation_error_becomes_denial_witness:
  "try_block example_controller 7 unlock_both_confirmed fresh_validation
     = (Thrown (TypeError ''entityId.replace is not a function'') fresh_validation,
        snd (validateServiceCall example_controller 7 unlock_both_confirmed))
   \<and> allowed (fst (validateServiceCall example_controller 7 unlock_both_confirmed)) = False
   \<and> reason (fst (validateServiceCall example_controller 7 unlock_both_confirmed))
       = Some ''Validation error: entityId.replace is not a function''
   \<and> auditEntries (snd (validateServiceCall example_controller 7 unlock_both_confirmed))
       = [\<lparr> action = ''high_risk_confirmed'', audit_domain = Some ''lock'',
            audit_service = Some ''unlock'',
            audit_entity_id = Some (Multi [''lock.front_door'', ''lock.back_door'']),
            audit_allowed = True, violation_type = None, audit_confirmed = Some True,
            timestamp = 7 \<rparr>]
   \<and> try_block example_controller 7 lights_on fresh_validation
     = (Thrown (TypeError ''entityId.replace is not a function'') fresh_validation,
        example_controller)
   \<and> reason (fst (validateServiceCall example_controller 7 lights_on))
       = Some ''Validation error: entityId.replace is not a function''
   \<and> auditEntries (snd (validateServiceCall example_controller 7 lights_on)) = []"
proof -
  have high: "isHighRiskAction unlock_both_confirmed"
    and low: "\<not> isHighRiskAction lights_on"
    and setting: "confirmHighRiskActions (config example_controller)"
    and empty: "auditEntries example_controller = []"
    by (simp_all add: example_defs isHighRiskAction_def highRiskDomains_def highRiskActions_def)
  have raised: "try_block example_controller 7 unlock_both_confirmed fresh_validation
     = (Thrown (TypeError ''entityId.replace is not a function'') fresh_validation,
        addAuditEntry example_controller 7
          ((audit_of_call ''high_risk_confirmed'' unlock_both_confirmed)
             \<lparr>audit_confirmed := Some True\<rparr>))"
    by (simp add: example_defs try_block_def isHighRiskAction_def highRiskDomains_def Let_def)
  have raised_low: "try_block example_controller 7 lights_on fresh_validation
     = (Thrown (TypeError ''entityId.replace is not a function'') fresh_validation,
        example_controller)"
    by (simp add: example_defs try_block_def isHighRiskAction_def highRiskDomains_def
        highRiskActions_def Let_def)
  have shape: "stamp ((audit_of_call ''high_risk_confirmed'' unlock_both_confirmed)
                        \<lparr>audit_confirmed := Some True\<rparr>) 7
       = \<lparr> action = ''high_risk_confirmed'', audit_domain = Some ''lock'',
            audit_service = Some ''unlock'',
            audit_entity_id = Some (Multi [''lock.front_door'', ''lock.back_door'']),
            audit_allowed = True, violation_type = None, audit_confirmed = Some True,
            timestamp = 7 \<rparr>"
    by (simp add: stamp_def audit_of_call_def unlock_both_confirmed_def)
  from validation_error_becomes_denial [OF raised]
       validation_error_becomes_denial [OF raised_low]
       raised raised_low high low setting empty shape
  show ?thesis by simp
qed

section \<open>The bridge: what leaves the requests alone\<close>

lemma request_state_emit [simp]: "request_state (emit b n pl) = request_state b"
  by (simp add: request_state_def emit_def)

lemma request_state_send [simp]: "request_state (send b f) = request_state b"
  by (simp add: request_state_def send_def)

lemma request_state_settle_connect [simp]:
  "request_state (settle_connect b p r) = request_state b"
  by (simp add: request_state_def settle_connect_def split: option.splits)

lemma request_state_authenticate [simp]: "request_state (authenticate b) = request_state b"
  by (simp add: authenticate_def)

lemma request_state_authenticate_pow [simp]:
  "request_state ((authenticate ^^ n) b) = request_state b"
  by (induction n) simp_all

lemma request_state_emit_auth_required [simp]:
  "request_state (emit_auth_required b) = request_state b"
proof -
  have "request_state ((emit b ''auth_required'' [])\<lparr>once_auth_required := 0\<rparr>) = request_state b"
    by (simp add: request_state_def emit_def)
  then show ?thesis by (simp add: emit_auth_required_def)
qed

lemma request_state_foldl:
  assumes "\<And>s p. request_state (f s p) = request_state s"
  shows "request_state (foldl f s ps) = request_state s"
  using assms by (induction ps arbitrary: s) simp_all

lemma request_state_emit_auth_ok [simp]: "request_state (emit_auth_ok b) = request_state b"
proof -
  have step: "\<And>s p. request_state (settle_connect (emit (s\<lparr>connected := True\<rparr>) ''connected'' []) p (Resolved []))
      = request_state s"
    by (simp add: request_state_def emit_def settle_connect_def split: option.splits)
  have start: "request_state ((emit b ''auth_ok'' [])\<lparr>once_auth_ok := []\<rparr>) = request_state b"
    by (simp add: request_state_def emit_def)
  show ?thesis
    unfolding emit_auth_ok_def by (simp only: request_state_foldl [where f = "\<lambda>s p. settle_connect (emit (s\<lparr>connected := True\<rparr>) ''connected'' []) p (Resolved [])", OF step] start)
qed

lemma request_state_emit_auth_invalid [simp]:
  "request_state (emit_auth_invalid b txt) = request_state b"
proof -
  have step: "\<And>s p. request_state (settle_connect (emit s ''auth_error'' txt) p
                     (Rejected (Error (''Authentication failed: '' @ txt)))) = request_state s"
    by simp
  have start: "request_state ((emit b ''auth_invalid'' txt)\<lparr>once_auth_invalid := []\<rparr>) = request_state b"
    by (simp add: request_state_def emit_def)
  show ?thesis
    unfolding emit_auth_invalid_def by (simp only: request_state_foldl [where f = "\<lambda>s p. settle_connect (emit s ''auth_error'' txt) p
                     (Rejected (Error (''Authentication failed: '' @ txt)))", OF step] start)
qed

lemma request_state_handleEvent:
  "handleEvent b ev = Inr b' \<Longrightarrow> request_state b' = request_state b"
  by (auto simp add: handleEvent_def split: option.splits if_splits)

lemma request_state_ws_open [simp]: "request_state (ws_open b) = request_state b"
  by (simp add: ws_open_def request_state_def split: option.splits ready_state.splits)

lemma request_state_ws_close [simp]: "request_state (ws_close b why) = request_state b"
  by (simp add: ws_close_def request_state_def emit_def)

lemma request_state_ws_error [simp]: "request_state (ws_error b why) = request_state b"
  by (simp add: ws_error_def)

lemma request_state_connect [simp]: "request_state (fst (connect b)) = request_state b"
  by (simp add: connect_def request_state_def Let_def)

lemma request_state_disconnect [simp]: "request_state (disconnect b) = request_state b"
  by (simp add: disconnect_def request_state_def)

lemma request_state_controller [simp]:
  "request_state (b\<lparr>securityController := c\<rparr>) = request_state b"
  by (simp add: request_state_def)

lemma in_flight_request_state:
  "in_flight s k p h \<Longrightarrow> request_state s' = request_state s \<Longrightarrow> in_flight s' k p h"
  by (simp add: request_state_def in_flight_def)

lemma timed_out_request_state:
  "timed_out s k p \<Longrightarrow> request_state s' = request_state s \<Longrightarrow> timed_out s' k p"
  by (simp add: request_state_def timed_out_def)

lemma fire_timer_fields:
  "messageId (fire_timer s h) = messageId s"
  "promiseCount (fire_timer s h) = promiseCount s"
  "timerCount (fire_timer s h) = timerCount s"
  by (simp_all add: fire_timer_def settle_def split: option.splits)

lemma in_flight_issue_other:
  assumes "in_flight s k p h"
  shows "in_flight (fst (sendRequest (s\<lparr>messageId := Suc (messageId s)\<rparr>)
            \<lparr> message_id = messageId s, body = bd \<rparr> tmo)) k p h"
proof -
  have "request_state (fst (sendRequest (s\<lparr>messageId := Suc (messageId s)\<rparr>)
            \<lparr> message_id = messageId s, body = bd \<rparr> tmo))
      = (Suc (messageId s),
         (pendingRequests s)(messageId s \<mapsto> \<lparr> promise = promiseCount s, timeout = timerCount s \<rparr>),
         promises s, Suc (promiseCount s),
         (timers s)(timerCount s \<mapsto> \<lparr> timer_request = messageId s, timer_promise = promiseCount s,
                       delay = (case tmo of None \<Rightarrow> 5000 | Some t \<Rightarrow> t) \<rparr>),
         Suc (timerCount s))"
    by (simp add: sendRequest_def Let_def request_state_def send_def)
  with assms show ?thesis
    by (auto simp add: in_flight_def request_state_def)
qed

lemma in_flight_fire_other:
  assumes "in_flight s k p h" and "h' \<noteq> h"
  shows "in_flight (fire_timer s h') k p h"
proof (cases "timers s h'")
  case None
  then show ?thesis using assms by (simp add: fire_timer_def)
next
  case (Some t)
  with assms have ne: "timer_promise t \<noteq> p" "timer_request t \<noteq> k"
    by (auto simp add: in_flight_def)
  with Some assms show ?thesis
    by (auto simp add: in_flight_def fire_timer_def settle_def split: option.splits)
qed

lemma in_flight_response_other:
  assumes "in_flight s k p h" and "i \<noteq> k"
  shows "in_flight (handleResponse s i m) k p h"
proof (cases "pendingRequests s i")
  case None
  then show ?thesis using assms by (simp add: handleResponse_def)
next
  case (Some pr)
  with assms have ne: "promise pr \<noteq> p" "timeout pr \<noteq> h"
    by (auto simp add: in_flight_def)
  with Some assms show ?thesis
    by (auto simp add: in_flight_def handleResponse_def settle_def Let_def split: option.splits)
qed

lemma callService_cases:
  obtains (denied) c where "fst (callService s now sc tmo) = s\<lparr>securityController := c\<rparr>"
  | (issued) c bd where
      "fst (callService s now sc tmo)
         = fst (sendRequest ((s\<lparr>securityController := c\<rparr>)\<lparr>messageId := Suc (messageId s)\<rparr>)
                 \<lparr> message_id = messageId s, body = bd \<rparr> tmo)"
proof (cases "securityController s")
  case None
  then have same: "s\<lparr>securityController := None\<rparr> = s" by simp
  have "fst (callService s now sc tmo)
      = fst (sendRequest (s\<lparr>messageId := Suc (messageId s)\<rparr>)
          \<lparr> message_id = messageId s,
            body = CallServiceBody (domain sc) (service sc)
                     (if truthy_entity (entity_id sc) then entity_id sc else None) (data sc) \<rparr> tmo)"
    using None by (simp add: callService_def Let_def case_prod_beta)
  then show ?thesis
    using issued [of None "CallServiceBody (domain sc) (service sc)
                     (if truthy_entity (entity_id sc) then entity_id sc else None) (data sc)"]
    unfolding same by blast
next
  case (Some ctl)
  show ?thesis
  proof (cases "allowed (fst (validateServiceCall ctl now sc))")
    case False
    with Some have "fst (callService s now sc tmo)
        = s\<lparr>securityController := Some (snd (validateServiceCall ctl now sc))\<rparr>"
      by (simp add: callService_def Let_def case_prod_beta)
    then show ?thesis by (rule denied)
  next
    case True
    with Some have "fst (callService s now sc tmo)
      = fst (sendRequest ((s\<lparr>securityController := Some (snd (validateServiceCall ctl now sc))\<rparr>)
               \<lparr>messageId := Suc (messageId s)\<rparr>)
          \<lparr> message_id = messageId s,
            body = CallServiceBody (domain sc) (service sc)
                     (if truthy_entity (entity_id sc) then entity_id sc else None) (data sc) \<rparr> tmo)"
      by (simp add: callService_def Let_def case_prod_beta)
    then show ?thesis by (rule issued)
  qed
qed

lemma in_flight_callService:
  assumes "in_flight s k p h"
  shows "in_flight (fst (callService s now sc tmo)) k p h"
proof (cases rule: callService_cases [of s now sc tmo])
  case (denied c)
  then show ?thesis using assms by (simp add: in_flight_request_state [where s = s])
next
  case (issued c bd)
  have "in_flight (s\<lparr>securityController := c\<rparr>) k p h"
    using assms by (rule in_flight_request_state) simp
  from in_flight_issue_other [OF this, of bd tmo] issued show ?thesis by simp
qed



lemma in_flight_ws_message:
  assumes "in_flight s k p h" and "\<not> answers k (WsMessage raw)"
  shows "in_flight (ws_message s raw) k p h"
proof (cases raw)
  case (Malformed why)
  then show ?thesis using assms by (simp add: ws_message_def in_flight_request_state [where s = s])
next
  case (Parsed m)
  show ?thesis
  proof (cases "handleMessage s m")
    case (Inl err)
    with Parsed show ?thesis using assms
      by (simp add: ws_message_def in_flight_request_state [where s = s])
  next
    case (Inr s')
    have "in_flight s' k p h"
    proof (cases "mtype m = ''result'' \<and> truthy_id (mid m)")
      case True
      then obtain i where i: "mid m = Some i" by (cases "mid m") auto
      with True assms Parsed have "i \<noteq> k" by auto
      moreover from True i Inr have "s' = handleResponse s i m"
        by (auto simp add: handleMessage_def split: if_splits)
      ultimately show ?thesis using assms in_flight_response_other by simp
    next
      case False
      with Inr have "request_state s' = request_state s"
        by (auto simp add: handleMessage_def request_state_handleEvent split: if_splits)
      then show ?thesis using assms(1) by (rule in_flight_request_state [rotated])
    qed
    with Parsed Inr show ?thesis by (simp add: ws_message_def)
  qed
qed

lemma in_flight_step:
  assumes "in_flight s k p h" and "ev \<noteq> TimerFires h" and "\<not> answers k ev"
  shows "in_flight (step s ev) k p h"
proof (cases ev)
  case (CallService now sc tmo)
  then show ?thesis using assms in_flight_callService by simp
next
  case GetStates
  then show ?thesis using in_flight_issue_other [OF assms(1)] by (simp add: getStates_def Let_def)
next
  case (SubscribeEvents et)
  then show ?thesis using in_flight_issue_other [OF assms(1)]
    by (simp add: subscribeEvents_def Let_def)
next
  case (UnsubscribeEvents i)
  then show ?thesis using in_flight_issue_other [OF assms(1)]
    by (simp add: unsubscribeEvents_def Let_def)
next
  case (WsMessage raw)
  then show ?thesis using assms in_flight_ws_message by simp
next
  case (TimerFires h')
  then show ?thesis using assms in_flight_fire_other by simp
qed (use assms in \<open>simp_all add: in_flight_request_state [where s = s]\<close>)

lemma in_flight_run:
  assumes "in_flight s k p h"
    and "\<forall>ev \<in> set evs. ev \<noteq> TimerFires h \<and> \<not> answers k ev"
  shows "in_flight (run s evs) k p h"
  using assms unfolding run_def
proof (induction evs arbitrary: s)
  case Nil
  then show ?case by simp
next
  case (Cons ev evs)
  then show ?case using in_flight_step by simp
qed

lemma in_flight_start:
  assumes "handles_below_counters b"
  shows "in_flight (fst (sendRequest (b\<lparr>messageId := Suc (messageId b)\<rparr>)
            \<lparr> message_id = messageId b, body = bd \<rparr> tmo))
          (messageId b) (promiseCount b) (timerCount b)"
proof -
  have rs: "request_state (fst (sendRequest (b\<lparr>messageId := Suc (messageId b)\<rparr>)
            \<lparr> message_id = messageId b, body = bd \<rparr> tmo))
      = (Suc (messageId b),
         (pendingRequests b)(messageId b \<mapsto> \<lparr> promise = promiseCount b, timeout = timerCount b \<rparr>),
         promises b, Suc (promiseCount b),
         (timers b)(timerCount b \<mapsto> \<lparr> timer_request = messageId b, timer_promise = promiseCount b,
                       delay = (case tmo of None \<Rightarrow> 5000 | Some t \<Rightarrow> t) \<rparr>),
         Suc (timerCount b))"
    by (simp add: sendRequest_def Let_def request_state_def send_def)
  have fresh: "promises b (promiseCount b) = None"
    using assms by (cases "promises b (promiseCount b)") (auto simp add: handles_below_counters_def)
  have t: "\<And>h t. timers b h = Some t \<Longrightarrow>
      h < timerCount b \<and> timer_promise t < promiseCount b \<and> timer_request t < messageId b"
    using assms by (simp add: handles_below_counters_def)
  have q: "\<And>i pr. pendingRequests b i = Some pr \<Longrightarrow>
      i < messageId b \<and> promise pr < promiseCount b \<and> timeout pr < timerCount b"
    using assms by (simp add: handles_below_counters_def)
  from rs fresh show ?thesis
    unfolding in_flight_def request_state_def
    using t q by (auto dest!: t q)
qed

lemma sendRequest_promise:
  "snd (sendRequest b message tmo) = promiseCount b"
  by (simp add: sendRequest_def Let_def)

lemma fire_in_flight:
  assumes "in_flight s k p h"
  shows "timed_out (fire_timer s h) k p"
  using assms by (auto simp add: in_flight_def timed_out_def fire_timer_def settle_def)

lemma timed_out_issue:
  assumes "timed_out s k p"
  shows "timed_out (fst (sendRequest (s\<lparr>messageId := Suc (messageId s)\<rparr>)
            \<lparr> message_id = messageId s, body = bd \<rparr> tmo)) k p"
proof -
  have "request_state (fst (sendRequest (s\<lparr>messageId := Suc (messageId s)\<rparr>)
            \<lparr> message_id = messageId s, body = bd \<rparr> tmo))
      = (Suc (messageId s),
         (pendingRequests s)(messageId s \<mapsto> \<lparr> promise = promiseCount s, timeout = timerCount s \<rparr>),
         promises s, Suc (promiseCount s),
         (timers s)(timerCount s \<mapsto> \<lparr> timer_request = messageId s, timer_promise = promiseCount s,
                       delay = (case tmo of None \<Rightarrow> 5000 | Some t \<Rightarrow> t) \<rparr>),
         Suc (timerCount s))"
    by (simp add: sendRequest_def Let_def request_state_def send_def)
  with assms show ?thesis
    by (auto simp add: timed_out_def request_state_def)
qed

lemma timed_out_fire:
  assumes "timed_out s k p"
  shows "timed_out (fire_timer s h) k p"
  using assms
  by (auto simp add: timed_out_def fire_timer_def settle_def split: option.splits)

lemma timed_out_response:
  assumes "timed_out s k p"
  shows "timed_out (handleResponse s i m) k p"
  using assms
  by (auto simp add: timed_out_def handleResponse_def settle_def Let_def split: option.splits)

lemma timed_out_callService:
  assumes "timed_out s k p"
  shows "timed_out (fst (callService s now sc tmo)) k p"
proof (cases rule: callService_cases [of s now sc tmo])
  case (denied c)
  then show ?thesis using assms by (simp add: timed_out_request_state [where s = s])
next
  case (issued c bd)
  have "timed_out (s\<lparr>securityController := c\<rparr>) k p"
    using assms by (rule timed_out_request_state) simp
  from timed_out_issue [OF this, of bd tmo] issued show ?thesis by simp
qed

lemma handleMessage_cases:
  assumes "handleMessage s m = Inr s'"
  obtains (response) i where "s' = handleResponse s i m"
  | (other) "request_state s' = request_state s"
proof (cases "mtype m = ''result'' \<and> truthy_id (mid m)")
  case True
  then obtain i where i: "mid m = Some i" by (cases "mid m") auto
  with True assms have "s' = handleResponse s i m"
    by (auto simp add: handleMessage_def split: if_splits)
  then show ?thesis by (rule response)
next
  case False
  with assms have "request_state s' = request_state s"
    by (auto simp add: handleMessage_def request_state_handleEvent split: if_splits)
  then show ?thesis by (rule other)
qed

lemma timed_out_ws_message:
  assumes "timed_out s k p"
  shows "timed_out (ws_message s raw) k p"
proof (cases raw)
  case (Malformed why)
  then show ?thesis using assms by (simp add: ws_message_def timed_out_request_state [where s = s])
next
  case (Parsed m)
  show ?thesis
  proof (cases "handleMessage s m")
    case (Inl err)
    with Parsed show ?thesis using assms
      by (simp add: ws_message_def timed_out_request_state [where s = s])
  next
    case (Inr s')
    then have "timed_out s' k p"
    proof (cases rule: handleMessage_cases)
      case (response i)
      then show ?thesis using assms timed_out_response by simp
    next
      case other
      with assms show ?thesis by (rule timed_out_request_state)
    qed
    with Parsed Inr show ?thesis by (simp add: ws_message_def)
  qed
qed

lemma timed_out_step:
  assumes "timed_out s k p"
  shows "timed_out (step s ev) k p"
proof (cases ev)
  case (CallService now sc tmo)
  then show ?thesis using assms timed_out_callService by simp
next
  case GetStates
  then show ?thesis using timed_out_issue [OF assms] by (simp add: getStates_def Let_def)
next
  case (SubscribeEvents et)
  then show ?thesis using timed_out_issue [OF assms]
    by (simp add: subscribeEvents_def Let_def)
next
  case (UnsubscribeEvents i)
  then show ?thesis using timed_out_issue [OF assms]
    by (simp add: unsubscribeEvents_def Let_def)
next
  case (WsMessage raw)
  then show ?thesis using assms timed_out_ws_message by simp
next
  case (TimerFires h')
  then show ?thesis using assms timed_out_fire by simp
qed (use assms in \<open>simp_all add: timed_out_request_state [where s = s]\<close>)

lemma timed_out_run:
  assumes "timed_out s k p"
  shows "timed_out (run s evs) k p"
  using assms unfolding run_def
proof (induction evs arbitrary: s)
  case Nil
  then show ?case by simp
next
  case (Cons ev evs)
  then show ?case using timed_out_step by simp
qed

lemma response_without_pending:
  assumes "pendingRequests s k = None" and "answers k ev"
  shows "step s ev = s"
proof -
  from assms(2) obtain raw where raw: "ev = WsMessage raw"
    by (cases ev) auto
  with assms(2) obtain m where ev: "ev = WsMessage (Parsed m)"
    and m: "mtype m = ''result''" "mid m = Some k"
    by (cases raw) auto
  have "handleMessage s m = Inr s"
    using m assms(1) by (simp add: handleMessage_def handleResponse_def)
  with ev show ?thesis by (simp add: ws_message_def)
qed

lemma handles_request_state:
  "handles_below_counters s \<Longrightarrow> request_state s' = request_state s \<Longrightarrow> handles_below_counters s'"
  by (simp add: request_state_def handles_below_counters_def)

lemma handles_issue:
  assumes "handles_below_counters s"
  shows "handles_below_counters (fst (sendRequest (s\<lparr>messageId := Suc (messageId s)\<rparr>)
            \<lparr> message_id = messageId s, body = bd \<rparr> tmo))"
proof -
  have rs: "request_state (fst (sendRequest (s\<lparr>messageId := Suc (messageId s)\<rparr>)
            \<lparr> message_id = messageId s, body = bd \<rparr> tmo))
      = (Suc (messageId s),
         (pendingRequests s)(messageId s \<mapsto> \<lparr> promise = promiseCount s, timeout = timerCount s \<rparr>),
         promises s, Suc (promiseCount s),
         (timers s)(timerCount s \<mapsto> \<lparr> timer_request = messageId s, timer_promise = promiseCount s,
                       delay = (case tmo of None \<Rightarrow> 5000 | Some t \<Rightarrow> t) \<rparr>),
         Suc (timerCount s))"
    by (simp add: sendRequest_def Let_def request_state_def send_def)
  have t: "\<And>h t. timers s h = Some t \<Longrightarrow>
      h < timerCount s \<and> timer_promise t < promiseCount s \<and> timer_request t < messageId s"
    using assms by (simp add: handles_below_counters_def)
  have q: "\<And>i pr. pendingRequests s i = Some pr \<Longrightarrow>
      i < messageId s \<and> promise pr < promiseCount s \<and> timeout pr < timerCount s"
    using assms by (simp add: handles_below_counters_def)
  have r: "\<And>p r. promises s p = Some r \<Longrightarrow> p < promiseCount s"
    using assms by (simp add: handles_below_counters_def)
  from rs show ?thesis
    unfolding handles_below_counters_def request_state_def
    by (auto dest!: t q r simp add: less_Suc_eq)
qed

lemma handles_fire:
  assumes "handles_below_counters s"
  shows "handles_below_counters (fire_timer s h)"
proof (cases "timers s h")
  case None
  then show ?thesis using assms by (simp add: fire_timer_def)
next
  case (Some t)
  with assms have "timer_promise t < promiseCount s"
    by (simp add: handles_below_counters_def)
  with Some assms show ?thesis
    unfolding handles_below_counters_def
    by (auto simp add: fire_timer_def settle_def split: option.splits if_splits)
qed

lemma handles_response:
  assumes "handles_below_counters s"
  shows "handles_below_counters (handleResponse s i m)"
proof (cases "pendingRequests s i")
  case None
  then show ?thesis using assms by (simp add: handleResponse_def)
next
  case (Some pr)
  with assms have "promise pr < promiseCount s"
    by (simp add: handles_below_counters_def)
  with Some assms show ?thesis
    unfolding handles_below_counters_def
    by (auto simp add: handleResponse_def settle_def Let_def split: option.splits if_splits)
qed

lemma handles_step:
  assumes "handles_below_counters s"
  shows "handles_below_counters (step s ev)"
proof (cases ev)
  case (CallService now sc tmo)
  show ?thesis
  proof (cases rule: callService_cases [of s now sc tmo])
    case (denied c)
    with CallService show ?thesis
      using assms by (simp add: handles_request_state [where s = s])
  next
    case (issued c bd)
    have "handles_below_counters (s\<lparr>securityController := c\<rparr>)"
      using assms by (rule handles_request_state) simp
    from handles_issue [OF this, of bd tmo] issued CallService show ?thesis by simp
  qed
next
  case GetStates
  then show ?thesis using handles_issue [OF assms] by (simp add: getStates_def Let_def)
next
  case (SubscribeEvents et)
  then show ?thesis using handles_issue [OF assms] by (simp add: subscribeEvents_def Let_def)
next
  case (UnsubscribeEvents i)
  then show ?thesis using handles_issue [OF assms] by (simp add: unsubscribeEvents_def Let_def)
next
  case (WsMessage raw)
  show ?thesis
  proof (cases raw)
    case (Malformed why)
    with WsMessage show ?thesis using assms
      by (simp add: ws_message_def handles_request_state [where s = s])
  next
    case (Parsed m)
    show ?thesis
    proof (cases "handleMessage s m")
      case (Inl err)
      with Parsed WsMessage show ?thesis using assms
        by (simp add: ws_message_def handles_request_state [where s = s])
    next
      case (Inr s')
      then have "handles_below_counters s'"
      proof (cases rule: handleMessage_cases)
        case (response i)
        then show ?thesis using assms handles_response by simp
      next
        case other
        with assms show ?thesis by (rule handles_request_state)
      qed
      with Parsed Inr WsMessage show ?thesis by (simp add: ws_message_def)
    qed
  qed
next
  case (TimerFires h')
  then show ?thesis using assms handles_fire by simp
qed (use assms in \<open>simp_all add: handles_request_state [where s = s]\<close>)

lemma handles_run:
  assumes "handles_below_counters s"
  shows "handles_below_counters (run s evs)"
  using assms unfolding run_def
proof (induction evs arbitrary: s)
  case Nil
  then show ?case by simp
next
  case (Cons ev evs)
  then show ?case using handles_step by simp
qed

lemma handles_newBridge: "handles_below_counters (newBridge tok sc)"
  by (simp add: handles_below_counters_def newBridge_def)

lemma handles_reachable: "handles_below_counters (run (newBridge tok sc) evs)"
  using handles_newBridge by (rule handles_run)

section \<open>Timeout and late responses\<close>

lemma request_lifecycle:
  assumes wf: "handles_below_counters b"
    and issue: "sendRequest (b\<lparr>messageId := Suc (messageId b)\<rparr>)
                  \<lparr> message_id = messageId b, body = bd \<rparr> tmo = (b1, p)"
    and quiet: "\<forall>ev \<in> set evs. ev \<noteq> TimerFires (timerCount b) \<and> \<not> answers (messageId b) ev"
    and late: "answers (messageId b) response"
  shows "timers b1 (timerCount b)
           = Some \<lparr> timer_request = messageId b, timer_promise = p,
                    delay = (case tmo of None \<Rightarrow> 5000 | Some t \<Rightarrow> t) \<rparr>"
    and "promises (run b1 evs) p = None"
    and "pendingRequests (run b1 evs) (messageId b) = Some \<lparr> promise = p, timeout = timerCount b \<rparr>"
    and "promises (fire_timer (run b1 evs) (timerCount b)) p
           = Some (Rejected (Error ''Request timeout''))"
    and "pendingRequests (fire_timer (run b1 evs) (timerCount b)) (messageId b) = None"
    and "promises (run (fire_timer (run b1 evs) (timerCount b)) later) p
           = Some (Rejected (Error ''Request timeout''))"
    and "pendingRequests (run (fire_timer (run b1 evs) (timerCount b)) later) (messageId b) = None"
    and "step (run (fire_timer (run b1 evs) (timerCount b)) later) response
           = run (fire_timer (run b1 evs) (timerCount b)) later"
proof -
  from issue have p: "p = promiseCount b" and b1: "b1 = fst (sendRequest (b\<lparr>messageId := Suc (messageId b)\<rparr>)
                  \<lparr> message_id = messageId b, body = bd \<rparr> tmo)"
    using sendRequest_promise [of "b\<lparr>messageId := Suc (messageId b)\<rparr>" "\<lparr> message_id = messageId b, body = bd \<rparr>" tmo]
    by simp_all
  show "timers b1 (timerCount b)
           = Some \<lparr> timer_request = messageId b, timer_promise = p,
                    delay = (case tmo of None \<Rightarrow> 5000 | Some t \<Rightarrow> t) \<rparr>"
    unfolding b1 p by (simp add: sendRequest_def Let_def send_def)
  have start: "in_flight b1 (messageId b) p (timerCount b)"
    unfolding b1 p by (rule in_flight_start [OF wf])
  have flying: "in_flight (run b1 evs) (messageId b) p (timerCount b)"
    using start quiet by (rule in_flight_run)
  then show "promises (run b1 evs) p = None"
    and "pendingRequests (run b1 evs) (messageId b) = Some \<lparr> promise = p, timeout = timerCount b \<rparr>"
    by (simp_all add: in_flight_def)
  have fired: "timed_out (fire_timer (run b1 evs) (timerCount b)) (messageId b) p"
    using flying by (rule fire_in_flight)
  then show "promises (fire_timer (run b1 evs) (timerCount b)) p
           = Some (Rejected (Error ''Request timeout''))"
    and "pendingRequests (fire_timer (run b1 evs) (timerCount b)) (messageId b) = None"
    by (simp_all add: timed_out_def)
  have after: "timed_out (run (fire_timer (run b1 evs) (timerCount b)) later) (messageId b) p"
    using fired by (rule timed_out_run)
  then show "promises (run (fire_timer (run b1 evs) (timerCount b)) later) p
           = Some (Rejected (Error ''Request timeout''))"
    and none: "pendingRequests (run (fire_timer (run b1 evs) (timerCount b)) later) (messageId b) = None"
    by (simp_all add: timed_out_def)
  show "step (run (fire_timer (run b1 evs) (timerCount b)) later) response
           = run (fire_timer (run b1 evs) (timerCount b)) later"
    using none late by (rule response_without_pending)
qed

text \<open>
  C7. Take any bridge in which the ids, promises and timer handles in use are below their
  counters (every bridge a run reaches from the constructor is one), and a request
  issued the way the public methods issue it, with the next \<^verbatim>\<open>messageId\<close>. Its timer is
  armed with the timeout given, 5000 ms when none is. Through any events that neither
  answer this request nor fire its timer, the call stays suspended and its entry stays in
  the table. When the timer then fires, the promise is rejected with \<^verbatim>\<open>Request timeout\<close>
  and the entry is removed. After that, whatever follows, the promise keeps that outcome,
  the entry stays absent, and a response frame that cites the id leaves the whole bridge
  as it was.
\<close>

theorem request_times_out_and_late_response_ignored:
  assumes "handles_below_counters b"
    and "sendRequest (b\<lparr>messageId := Suc (messageId b)\<rparr>)
           \<lparr> message_id = messageId b, body = bd \<rparr> tmo = (b1, p)"
    and "\<forall>ev \<in> set evs. ev \<noteq> TimerFires (timerCount b) \<and> \<not> answers (messageId b) ev"
    and "answers (messageId b) response"
  shows "timers b1 (timerCount b)
           = Some \<lparr> timer_request = messageId b, timer_promise = p,
                    delay = (case tmo of None \<Rightarrow> 5000 | Some t \<Rightarrow> t) \<rparr>
    \<and> promises (run b1 evs) p = None
    \<and> pendingRequests (run b1 evs) (messageId b) = Some \<lparr> promise = p, timeout = timerCount b \<rparr>
    \<and> promises (fire_timer (run b1 evs) (timerCount b)) p
           = Some (Rejected (Error ''Request timeout''))
    \<and> pendingRequests (fire_timer (run b1 evs) (timerCount b)) (messageId b) = None
    \<and> promises (run (fire_timer (run b1 evs) (timerCount b)) later) p
           = Some (Rejected (Error ''Request timeout''))
    \<and> pendingRequests (run (fire_timer (run b1 evs) (timerCount b)) later) (messageId b) = None
    \<and> step (run (fire_timer (run b1 evs) (timerCount b)) later) response
           = run (fire_timer (run b1 evs) (timerCount b)) later"
  by (intro conjI; rule request_lifecycle [OF assms])

text \<open>
  The theorem at the example bridge: the first request, a socket that connects and opens
  while it waits, the timer, then more traffic and the late response.
\<close>

theorem request_times_out_and_late_response_ignored_witness:
  "handles_below_counters example_bridge
   \<and> answers 1 first_response
   \<and> promises (fire_timer (run (fst (getStates example_bridge)) [Connect, WsOpen]) 0) 0
       = Some (Rejected (Error ''Request timeout''))
   \<and> step (run (fire_timer (run (fst (getStates example_bridge)) [Connect, WsOpen]) 0) [GetStates])
        first_response
       = run (fire_timer (run (fst (getStates example_bridge)) [Connect, WsOpen]) 0) [GetStates]"
proof -
  have one: "messageId example_bridge = 1" and zero: "timerCount example_bridge = 0"
    by (simp_all add: example_defs)
  have wf: "handles_below_counters example_bridge"
    unfolding example_bridge_def by (rule handles_newBridge)
  have issue: "sendRequest (example_bridge\<lparr>messageId := Suc (messageId example_bridge)\<rparr>)
           \<lparr> message_id = messageId example_bridge, body = GetStatesBody \<rparr> None
         = (fst (getStates example_bridge), 0)"
    by (simp add: example_defs getStates_def sendRequest_def Let_def)
  have quiet: "\<forall>ev \<in> set [Connect, WsOpen].
      ev \<noteq> TimerFires (timerCount example_bridge) \<and> \<not> answers (messageId example_bridge) ev"
    by simp
  have late: "answers (messageId example_bridge) first_response"
    by (simp add: one first_response_def)
  from request_times_out_and_late_response_ignored [OF wf issue quiet late, of "[GetStates]"]
    wf late
  show ?thesis by (simp add: one zero)
qed

section \<open>Requests before the connection is ready\<close>

text \<open>
  C6 as stated fails: nothing fails fast. On the bridge that never connected, the call
  of \<^verbatim>\<open>getStates\<close> returns a promise that is not settled, no frame is sent, and the call
  fails when its timer fires, with \<^verbatim>\<open>Request timeout\<close>. On the bridge whose socket has
  opened but has not seen \<^verbatim>\<open>auth_ok\<close>, the frame is written to the socket.
\<close>

theorem request_before_ready_counterexample:
  "connected example_bridge = False
   \<and> snd (getStates example_bridge) = 0
   \<and> promises (fst (getStates example_bridge)) 0 = None
   \<and> sent (fst (getStates example_bridge)) = []
   \<and> promises (fire_timer (fst (getStates example_bridge)) 0) 0
       = Some (Rejected (Error ''Request timeout''))
   \<and> connected opened_bridge = False
   \<and> sent (fst (getStates opened_bridge)) = [RequestFrame first_request]"
  by (simp add: example_defs bridge_defs Let_def)

text \<open>
  C6, amended. A request issued while the connection is not ready does not fail fast:
  \<^verbatim>\<open>sendRequest\<close> never reads the connection state. It leaves the caller suspended, stores
  the pending request and arms its timer (5000 ms by default); the frame is written when
  the socket is open, also before \<^verbatim>\<open>auth_ok\<close>, and dropped silently otherwise; the
  \<^verbatim>\<open>connected\<close> flag is neither read nor changed. Unanswered, the call fails when its
  timer fires, with \<^verbatim>\<open>Request timeout\<close>.
\<close>

theorem request_before_ready_waits_for_timeout:
  assumes "handles_below_counters b"
    and "sendRequest b message tmo = (b', p)"
  shows "promises b' p = None
    \<and> pendingRequests b' (message_id message) = Some \<lparr> promise = p, timeout = timerCount b \<rparr>
    \<and> timers b' (timerCount b)
         = Some \<lparr> timer_request = message_id message, timer_promise = p,
                  delay = (case tmo of None \<Rightarrow> 5000 | Some t \<Rightarrow> t) \<rparr>
    \<and> sent b' = (if ws b = Some OPEN then sent b @ [RequestFrame message] else sent b)
    \<and> connected b' = connected b
    \<and> promises (fire_timer b' (timerCount b)) p = Some (Rejected (Error ''Request timeout''))"
proof -
  have fresh: "promises b (promiseCount b) = None"
    using assms(1) by (cases "promises b (promiseCount b)") (auto simp add: handles_below_counters_def)
  from assms(2) have p: "p = promiseCount b" and b': "b' = fst (sendRequest b message tmo)"
    using sendRequest_promise [of b message tmo] by simp_all
  show ?thesis
    unfolding b' p using fresh
    by (simp add: sendRequest_def Let_def send_def fire_timer_def settle_def)
qed

text \<open>The theorem at the bridge whose socket has opened and that is not yet connected.\<close>

theorem request_before_ready_waits_for_timeout_witness:
  "handles_below_counters opened_bridge
   \<and> connected opened_bridge = False
   \<and> promises (fst (sendRequest opened_bridge first_request None)) 0 = None
   \<and> sent (fst (sendRequest opened_bridge first_request None)) = [RequestFrame first_request]
   \<and> promises (fire_timer (fst (sendRequest opened_bridge first_request None)) 0) 0
       = Some (Rejected (Error ''Request timeout''))"
proof -
  have wf: "handles_below_counters opened_bridge"
    by (simp add: handles_below_counters_def example_defs bridge_defs)
  have issue: "sendRequest opened_bridge first_request None
      = (fst (sendRequest opened_bridge first_request None), 0)"
    by (simp add: example_defs bridge_defs Let_def)
  have facts: "timerCount opened_bridge = 0" "ws opened_bridge = Some OPEN"
    "sent opened_bridge = []" "connected opened_bridge = False"
    by (simp_all add: example_defs bridge_defs)
  from request_before_ready_waits_for_timeout [OF wf issue] wf facts
  show ?thesis by simp
qed

section \<open>Loss of the transport\<close>

text \<open>
  C8 as stated fails: the handlers of \<^verbatim>\<open>close\<close> and \<^verbatim>\<open>error\<close> and the method \<^verbatim>\<open>disconnect\<close>
  do not touch the table. With one request out, after the socket closes the entry is
  still in the table and its promise is not settled.
\<close>

theorem transport_loss_counterexample:
  "pendingRequests waiting_bridge 1 = Some \<lparr> promise = 0, timeout = 0 \<rparr>
   \<and> pendingRequests (ws_close waiting_bridge ''1006'') 1 = Some \<lparr> promise = 0, timeout = 0 \<rparr>
   \<and> promises (ws_close waiting_bridge ''1006'') 0 = None
   \<and> pendingRequests (disconnect waiting_bridge) 1 = Some \<lparr> promise = 0, timeout = 0 \<rparr>
   \<and> promises (disconnect waiting_bridge) 0 = None"
  by (simp add: example_defs bridge_defs disconnect_def Let_def)

text \<open>
  C8, amended. When the transport closes or reports an error, or \<^verbatim>\<open>disconnect\<close> is called,
  the table of pending requests, their promises and their timers are left exactly as they
  were: no pending request is resolved and none is removed. Each one stays until its
  response or its own timer; a timer that fires afterwards rejects its call with
  \<^verbatim>\<open>Request timeout\<close>.
\<close>

theorem transport_loss_keeps_pending_requests:
  "pendingRequests (ws_close b why) = pendingRequests b
   \<and> promises (ws_close b why) = promises b
   \<and> timers (ws_close b why) = timers b
   \<and> pendingRequests (ws_error b why) = pendingRequests b
   \<and> promises (ws_error b why) = promises b
   \<and> timers (ws_error b why) = timers b
   \<and> pendingRequests (disconnect b) = pendingRequests b
   \<and> promises (disconnect b) = promises b
   \<and> timers (disconnect b) = timers b
   \<and> (timers b h = Some t \<and> promises b (timer_promise t) = None \<longrightarrow>
        promises (fire_timer (ws_close b why) h) (timer_promise t)
          = Some (Rejected (Error ''Request timeout''))
        \<and> promises (fire_timer (ws_error b why) h) (timer_promise t)
          = Some (Rejected (Error ''Request timeout''))
        \<and> promises (fire_timer (disconnect b) h) (timer_promise t)
          = Some (Rejected (Error ''Request timeout'')))"
  by (simp add: ws_close_def ws_error_def disconnect_def emit_def settle_connect_def
      fire_timer_def settle_def split: option.splits)

text \<open>The theorem at the bridge with one request out, whose timer has handle 0.\<close>

theorem transport_loss_keeps_pending_requests_witness:
  "timers waiting_bridge 0
     = Some \<lparr> timer_request = 1, timer_promise = 0, delay = 5000 \<rparr>
   \<and> promises waiting_bridge 0 = None
   \<and> pendingRequests (ws_error waiting_bridge ''ECONNRESET'') = pendingRequests waiting_bridge
   \<and> promises (fire_timer (ws_close waiting_bridge ''1006'') 0) 0
       = Some (Rejected (Error ''Request timeout''))"
proof -
  have armed: "timers waiting_bridge 0
     = Some \<lparr> timer_request = 1, timer_promise = 0, delay = 5000 \<rparr>"
    and open_promise: "promises waiting_bridge 0 = None"
    by (simp_all add: example_defs bridge_defs Let_def)
  from transport_loss_keeps_pending_requests
         [of waiting_bridge "''1006''" 0 "\<lparr> timer_request = 1, timer_promise = 0, delay = 5000 \<rparr>"]
       transport_loss_keeps_pending_requests
         [of waiting_bridge "''ECONNRESET''" 0 "\<lparr> timer_request = 1, timer_promise = 0, delay = 5000 \<rparr>"]
       armed open_promise
  show ?thesis by simp
qed

end
